theory Spec2Isabelle
  imports Main "HOL-Library.Word"
begin

section \<open>Errors and panics\<close>

text \<open>
  A Go \<^verbatim>\<open>error\<close> value is its message; \<open>Error msg\<close> is a call that ends by returning it. A run-time panic raised in the goroutine that
  serves the call is \<open>Panic msg\<close> (its deferred calls still run). A panic raised inside a
  goroutine started with \<^verbatim>\<open>errgroup.Group.Go\<close> cannot be recovered by anyone: the whole
  process ends, which is \<open>Crash msg\<close>.
\<close>

type_synonym error = string

datatype fault = Error error | Panic string | Crash string

section \<open>Commit store: \<^verbatim>\<open>src/server/pfs/server/commit_store.go\<close>\<close>

subsection \<open>Data\<close>

type_synonym fileset_ID = string
type_synonym ttl = int

text \<open>\<^verbatim>\<open>pfs.Commit\<close>: the code reads \<^verbatim>\<open>commit.Repo.Name\<close> and \<^verbatim>\<open>commit.ID\<close>.\<close>

record Commit =
  Repo_Name :: string
  ID :: string

text \<open>
  What the file uses and does not define: the three operations of \<^verbatim>\<open>fileset.Storage\<close>
  (they act on the storage's own state \<open>'st\<close> and may fail), the function
  \<^verbatim>\<open>commitKey\<close>, and the constants \<^verbatim>\<open>track.NoTTL\<close> and \<^verbatim>\<open>defaultTTL\<close>. They are
  parameters of the model.
\<close>

record 'st deps =
  Clone :: "'st \<Rightarrow> fileset_ID \<Rightarrow> ttl \<Rightarrow> (fault + fileset_ID) \<times> 'st"
  Compose :: "'st \<Rightarrow> fileset_ID list \<Rightarrow> ttl \<Rightarrow> (fault + fileset_ID) \<times> 'st"
  Drop :: "'st \<Rightarrow> fileset_ID \<Rightarrow> fault option \<times> 'st"
  commitKey :: "Commit \<Rightarrow> string"
  NoTTL :: ttl
  defaultTTL :: ttl

subsection \<open>The in-memory store\<close>

record memCommitStore =
  staging :: "string \<rightharpoonup> fileset_ID list"
  finished :: "string \<rightharpoonup> fileset_ID"

definition newMemCommitStore :: memCommitStore where
  "newMemCommitStore = \<lparr> staging = Map.empty, finished = Map.empty \<rparr>"

text \<open>\<^verbatim>\<open>s.staging[key]\<close>: reading a key that a Go map does not hold gives the nil slice.\<close>

definition staging_at :: "memCommitStore \<Rightarrow> string \<Rightarrow> fileset_ID list" where
  "staging_at s key = (case staging s key of None \<Rightarrow> [] | Some ids \<Rightarrow> ids)"

definition mem_AddFileset ::
  "'st deps \<Rightarrow> Commit \<Rightarrow> fileset_ID \<Rightarrow> memCommitStore \<times> 'st
    \<Rightarrow> fault option \<times> memCommitStore \<times> 'st" where
  "mem_AddFileset D commit filesetID = (\<lambda>(s, st).
     let key = commitKey D commit in
     case finished s key of
       Some _ \<Rightarrow> (Some (Error ''commit is finished''), s, st)
     | None \<Rightarrow>
        (case Clone D st filesetID (NoTTL D) of
           (Inl err, st') \<Rightarrow> (Some err, s, st')
         | (Inr cid, st') \<Rightarrow>
             (None, s\<lparr>staging := (staging s)(key \<mapsto> staging_at s key @ [cid])\<rparr>, st')))"

definition mem_GetFileset ::
  "'st deps \<Rightarrow> Commit \<Rightarrow> memCommitStore \<times> 'st \<Rightarrow> (fault + fileset_ID) \<times> 'st" where
  "mem_GetFileset D commit = (\<lambda>(s, st).
     let key = commitKey D commit in
     case finished s key of
       Some fid \<Rightarrow> Clone D st fid (defaultTTL D)
     | None \<Rightarrow> Compose D st (staging_at s key) (defaultTTL D))"

text \<open>
  \<^verbatim>\<open>UpdateFileset\<close> is the only writer of \<^verbatim>\<open>finished\<close>. The closure \<^verbatim>\<open>fn\<close> may use the
  storage, so it takes and returns the storage state.
\<close>

definition mem_UpdateFileset ::
  "'st deps \<Rightarrow> Commit \<Rightarrow> (fileset_ID \<Rightarrow> 'st \<Rightarrow> (fault + fileset_ID) \<times> 'st)
    \<Rightarrow> memCommitStore \<times> 'st \<Rightarrow> fault option \<times> memCommitStore \<times> 'st" where
  "mem_UpdateFileset D commit fn = (\<lambda>(s, st).
     let key = commitKey D commit;
         (rx, st1) = (case finished s key of
                        Some x \<Rightarrow> (Inr x, st)
                      | None \<Rightarrow> Compose D st (staging_at s key) (defaultTTL D))
     in case rx of
          Inl err \<Rightarrow> (Some err, s, st1)
        | Inr x \<Rightarrow>
           (case fn x st1 of
              (Inl err, st2) \<Rightarrow> (Some err, s, st2)
            | (Inr y, st2) \<Rightarrow>
               (case Clone D st2 y (NoTTL D) of
                  (Inl err, st3) \<Rightarrow> (Some err, s, st3)
                | (Inr cid, st3) \<Rightarrow>
                    (case Drop D st3 x of
                       (r, st4) \<Rightarrow> (r, s\<lparr>finished := (finished s)(key \<mapsto> cid)\<rparr>, st4)))))"

definition mem_DropFilesets ::
  "'st deps \<Rightarrow> Commit \<Rightarrow> memCommitStore \<times> 'st \<Rightarrow> fault option \<times> memCommitStore \<times> 'st" where
  "mem_DropFilesets D commit = (\<lambda>(s, st).
     let key = commitKey D commit in
     (None, s\<lparr>finished := (finished s)(key := None),
              staging := (staging s)(key := None)\<rparr>, st))"

subsection \<open>The transactional store\<close>

text \<open>
  The two tables, with the columns of the \<^verbatim>\<open>CREATE TABLE\<close> statements. \<^verbatim>\<open>num\<close> is
  \<^verbatim>\<open>SERIAL\<close>: every insert takes the next value of a sequence, held in \<open>num_seq\<close>, and
  the sequence ends at \<open>2^31 - 1\<close>. The database itself is taken to be reliable: a
  statement fails only for a reason that its text, its bound parameters and the rows
  determine.
\<close>

record diff_row =
  d_repo_name :: string
  d_commit_id :: string
  d_num :: int
  d_fileset_id :: fileset_ID

record total_row =
  t_repo_name :: string
  t_commit_id :: string
  t_fileset_id :: fileset_ID

record pgdb =
  commit_diffs :: "diff_row list"
  commit_totals :: "total_row list"
  num_seq :: int

definition ErrNoRows :: fault where
  "ErrNoRows = Error ''sql: no rows in result set''"

definition ErrParams :: fault where
  "ErrParams = Error ''sql: statement parameters do not match the arguments''"

text \<open>
  Each statement of the file is a function of the arguments the call passes after the
  query text, in the order it passes them; \<open>$n\<close> is the \<open>n\<close>-th of them. A statement
  that names \<open>$1\<close> and \<open>$2\<close> and receives another number of arguments is rejected.
\<close>

definition insert_commit_diffs :: "string list \<Rightarrow> pgdb \<Rightarrow> (fault + int) \<times> pgdb" where
  "insert_commit_diffs args db =
     (case args of
        [a1, a2, a3] \<Rightarrow>
          (if num_seq db \<ge> 2147483647
           then (Inl (Error ''nextval: reached maximum value of sequence''), db)
           else let n = num_seq db + 1 in
             (Inr n, db\<lparr>commit_diffs := commit_diffs db @
                           [\<lparr>d_repo_name = a1, d_commit_id = a2, d_num = n, d_fileset_id = a3\<rparr>],
                        num_seq := n\<rparr>))
      | _ \<Rightarrow> (Inl ErrParams, db))"

definition select_commit_diffs :: "string list \<Rightarrow> pgdb \<Rightarrow> fault + fileset_ID list" where
  "select_commit_diffs args db =
     (case args of
        [a1, a2] \<Rightarrow>
          Inr (map d_fileset_id
                 (sort_key d_num
                    (filter (\<lambda>r. d_commit_id r = a1 \<and> d_repo_name r = a2) (commit_diffs db))))
      | _ \<Rightarrow> Inl ErrParams)"

text \<open>\<^verbatim>\<open>GetContext\<close> scans the first row of the result and fails with \<^verbatim>\<open>sql.ErrNoRows\<close>
  when there is none.\<close>

definition select_commit_totals :: "string list \<Rightarrow> pgdb \<Rightarrow> fault + fileset_ID" where
  "select_commit_totals args db =
     (case args of
        [a1, a2] \<Rightarrow>
          (case filter (\<lambda>r. t_commit_id r = a1 \<and> t_repo_name r = a2) (commit_totals db) of
             [] \<Rightarrow> Inl ErrNoRows
           | r # _ \<Rightarrow> Inr (t_fileset_id r))
      | _ \<Rightarrow> Inl ErrParams)"

definition delete_commit_diffs :: "string list \<Rightarrow> pgdb \<Rightarrow> fault + pgdb" where
  "delete_commit_diffs args db =
     (case args of
        [a1, a2] \<Rightarrow>
          Inr (db\<lparr>commit_diffs :=
                    filter (\<lambda>r. \<not> (d_repo_name r = a1 \<and> d_commit_id r = a2)) (commit_diffs db)\<rparr>)
      | _ \<Rightarrow> Inl ErrParams)"

definition delete_commit_totals :: "string list \<Rightarrow> pgdb \<Rightarrow> fault + pgdb" where
  "delete_commit_totals args db =
     (case args of
        [a1, a2] \<Rightarrow>
          Inr (db\<lparr>commit_totals :=
                    filter (\<lambda>r. \<not> (t_repo_name r = a1 \<and> t_commit_id r = a2)) (commit_totals db)\<rparr>)
      | _ \<Rightarrow> Inl ErrParams)"

definition getDiff :: "pgdb \<Rightarrow> Commit \<Rightarrow> fault + fileset_ID list" where
  "getDiff db commit = select_commit_diffs [ID commit, Repo_Name commit] db"

definition getTotal :: "pgdb \<Rightarrow> Commit \<Rightarrow> fault + fileset_ID" where
  "getTotal db commit = select_commit_totals [ID commit, Repo_Name commit] db"

definition pg_AddFileset ::
  "'st deps \<Rightarrow> Commit \<Rightarrow> fileset_ID \<Rightarrow> pgdb \<times> 'st \<Rightarrow> fault option \<times> pgdb \<times> 'st" where
  "pg_AddFileset D commit fid = (\<lambda>(db, st).
     case Clone D st fid (NoTTL D) of
       (Inl err, st') \<Rightarrow> (Some err, db, st')
     | (Inr id2, st') \<Rightarrow>
         (case insert_commit_diffs [Repo_Name commit, ID commit, id2] db of
            (Inl err, db') \<Rightarrow> (Some err, db', st')
          | (Inr num, db') \<Rightarrow> (None, db', st')))"

definition pg_GetFileset ::
  "'st deps \<Rightarrow> Commit \<Rightarrow> pgdb \<times> 'st \<Rightarrow> (fault + fileset_ID) \<times> 'st" where
  "pg_GetFileset D commit = (\<lambda>(db, st).
     case getTotal db commit of
       Inr fid \<Rightarrow> Clone D st fid (defaultTTL D)
     | Inl _ \<Rightarrow>
        (case getDiff db commit of
           Inl err \<Rightarrow> (Inl err, st)
         | Inr ids \<Rightarrow> Compose D st ids (defaultTTL D)))"

text \<open>The loop \<^verbatim>\<open>for _, id := range diffIDs\<close> of \<^verbatim>\<open>DropFilesets\<close>: it stops at the
  first \<^verbatim>\<open>Drop\<close> that fails.\<close>

fun drop_each :: "'st deps \<Rightarrow> fileset_ID list \<Rightarrow> 'st \<Rightarrow> fault option \<times> 'st" where
  "drop_each D [] st = (None, st)"
| "drop_each D (fid # ids) st =
     (case Drop D st fid of
        (Some err, st') \<Rightarrow> (Some err, st')
      | (None, st') \<Rightarrow> drop_each D ids st')"

text \<open>Both \<^verbatim>\<open>DELETE\<close> statements are executed with the query text alone: no argument
  follows it in the call.\<close>

definition pg_DropFilesets ::
  "'st deps \<Rightarrow> Commit \<Rightarrow> pgdb \<times> 'st \<Rightarrow> fault option \<times> pgdb \<times> 'st" where
  "pg_DropFilesets D commit = (\<lambda>(db, st).
     case getDiff db commit of
       Inl err \<Rightarrow> (Some err, db, st)
     | Inr diffIDs \<Rightarrow>
        (case drop_each D diffIDs st of
           (Some err, st1) \<Rightarrow> (Some err, db, st1)
         | (None, st1) \<Rightarrow>
            (case delete_commit_diffs [] db of
               Inl err \<Rightarrow> (Some err, db, st1)
             | Inr db1 \<Rightarrow>
                (case getTotal db1 commit of
                   Inl err \<Rightarrow> (Some err, db1, st1)
                 | Inr fid \<Rightarrow>
                    (case Drop D st1 fid of
                       (Some err, st2) \<Rightarrow> (Some err, db1, st2)
                     | (None, st2) \<Rightarrow>
                        (case delete_commit_totals [] db1 of
                           Inl err \<Rightarrow> (Some err, db1, st2)
                         | Inr db2 \<Rightarrow> (None, db2, st2)))))))"

text \<open>The invariant of the sequence behind \<^verbatim>\<open>num\<close>, kept by every insert.\<close>

definition db_ok :: "pgdb \<Rightarrow> bool" where
  \<comment> \<open>No row carries a number the sequence has not handed out yet.\<close>
  "db_ok db = list_all (\<lambda>r. d_num r \<le> num_seq db) (commit_diffs db)"

subsection \<open>A small storage to evaluate the stores on\<close>

text \<open>
  An instance of the parameters, used only where a theorem is applied to concrete
  values: the storage state is the list of live references, \<open>Clone\<close> of \<open>x\<close> makes the
  reference \<open>x~\<close>, \<open>Compose\<close> joins the identifiers with \<open>+\<close>, \<open>Drop\<close> fails on a
  reference that is not live.
\<close>

definition demo_Clone :: "string list \<Rightarrow> fileset_ID \<Rightarrow> ttl \<Rightarrow> (fault + fileset_ID) \<times> string list" where
  "demo_Clone st x t = (Inr (x @ ''~''), st @ [x @ ''~''])"

definition demo_Compose :: "string list \<Rightarrow> fileset_ID list \<Rightarrow> ttl \<Rightarrow> (fault + fileset_ID) \<times> string list" where
  "demo_Compose st xs t =
     (Inr (''compose('' @ concat (map (\<lambda>x. x @ ''+'') xs) @ '')''),
      st @ [''compose('' @ concat (map (\<lambda>x. x @ ''+'') xs) @ '')''])"

definition demo_Drop :: "string list \<Rightarrow> fileset_ID \<Rightarrow> fault option \<times> string list" where
  "demo_Drop st x =
     (if x \<in> set st then (None, remove1 x st) else (Some (Error ''no such fileset''), st))"

definition demo_deps :: "string list deps" where
  "demo_deps = \<lparr> Clone = demo_Clone, Compose = demo_Compose, Drop = demo_Drop,
                 commitKey = (\<lambda>c. Repo_Name c @ ''/'' @ ID c), NoTTL = 0, defaultTTL = 600 \<rparr>"

definition demo_commit :: Commit where
  "demo_commit = \<lparr> Repo_Name = ''repo'', ID = ''c1'' \<rparr>"

definition demo_mem_finished :: memCommitStore where
  "demo_mem_finished =
     \<lparr> staging = [''repo/c1'' \<mapsto> [''a'', ''b'']], finished = [''repo/c1'' \<mapsto> ''F''] \<rparr>"

definition demo_mem_open :: memCommitStore where
  "demo_mem_open = \<lparr> staging = [''repo/c1'' \<mapsto> [''a'', ''b'']], finished = Map.empty \<rparr>"

definition demo_db_total :: pgdb where
  "demo_db_total = \<lparr> commit_diffs =
       [\<lparr>d_repo_name = ''repo'', d_commit_id = ''c1'', d_num = 2, d_fileset_id = ''f2''\<rparr>,
        \<lparr>d_repo_name = ''repo'', d_commit_id = ''c1'', d_num = 1, d_fileset_id = ''f1''\<rparr>],
     commit_totals = [\<lparr>t_repo_name = ''repo'', t_commit_id = ''c1'', t_fileset_id = ''T''\<rparr>],
     num_seq = 2 \<rparr>"

definition demo_db_open :: pgdb where
  "demo_db_open = \<lparr> commit_diffs =
       [\<lparr>d_repo_name = ''repo'', d_commit_id = ''c1'', d_num = 2, d_fileset_id = ''f2''\<rparr>,
        \<lparr>d_repo_name = ''other'', d_commit_id = ''c1'', d_num = 3, d_fileset_id = ''g''\<rparr>,
        \<lparr>d_repo_name = ''repo'', d_commit_id = ''c1'', d_num = 1, d_fileset_id = ''f1''\<rparr>],
     commit_totals = [], num_seq = 3 \<rparr>"

section \<open>Worker: \<^verbatim>\<open>src/server/pkg/worker/api_server.go\<close>\<close>

subsection \<open>Data\<close>

type_synonym bytes = string
type_synonym BlockRef = string

text \<open>\<^verbatim>\<open>pfs.FileInfo\<close>, \<^verbatim>\<open>pps.PipelineInput\<close>, \<^verbatim>\<open>pps.Transform\<close> and \<^verbatim>\<open>pps.PipelineInfo\<close>,
  with the fields the worker reads. \<^verbatim>\<open>AcceptReturnCode\<close> is a list of \<^verbatim>\<open>int64\<close>. The
  pointers \<^verbatim>\<open>pipelineInfo.Transform\<close> and \<^verbatim>\<open>pipelineInfo.Inputs[i]\<close> are taken to be
  non-nil.\<close>

record FileInfo =
  f_path :: string
  f_hash :: string

record PipelineInput =
  Name :: string
  Lazy :: bool

record transform =
  Cmd :: "string list"
  Stdin :: "string list"
  AcceptReturnCode :: "64 word list"

record pipelineInfo =
  Transform :: transform
  Inputs :: "PipelineInput list"

record ProcessRequest =
  Data :: "FileInfo list"

record ProcessResponse =
  Tag :: string

text \<open>How \<^verbatim>\<open>cmd.Run()\<close> ends: with no error, with an \<^verbatim>\<open>*exec.ExitError\<close> that carries the
  wait status of the child, or with another error (the binary could not be started, or
  its streams could not be copied).\<close>

datatype WaitStatus = Exited nat | Signaled nat

datatype run_result = RunOk | ExitError WaitStatus | RunError string

text \<open>\<^verbatim>\<open>syscall.WaitStatus.ExitStatus\<close>: the exit code of a child that exited, \<open>-1\<close>
  otherwise.\<close>

fun ExitStatus :: "WaitStatus \<Rightarrow> int" where
  "ExitStatus (Exited c) = int c"
| "ExitStatus (Signaled sig) = - 1"

subsection \<open>Effects\<close>

text \<open>
  Every call the worker makes to the outside is recorded, in the order the code makes
  it, in the \<open>events\<close> of the world. The world also holds what the object store keeps:
  the objects recorded under a tag and the blocks.
\<close>

datatype event =
    EvLock | EvUnlock | EvLog
  | EvHashDatum
  | EvGetTag string
  | EvPull string FileInfo bool
  | EvMkdirAll string
  | EvRun "string list" string
  | EvStderr string
  | EvWalk string
  | EvPutDir string
  | EvOpen string
  | EvPutBlock string
  | EvPutFile string
  | EvClose string
  | EvFinish
  | EvSerialize
  | EvPutObject string

record world =
  tags :: "string \<rightharpoonup> bytes"
  blocks :: "BlockRef list"
  events :: "event list"

definition emit :: "event \<Rightarrow> world \<Rightarrow> world" where
  "emit e w = w\<lparr>events := events w @ [e]\<rparr>"

text \<open>
  Code that the worker calls and \<^verbatim>\<open>api_server.go\<close> does not define, as parameters:
  \<^verbatim>\<open>ppsserver.HashDatum\<close>, the two path constants of \<^verbatim>\<open>client\<close>, \<^verbatim>\<open>filepath.Join\<close> and
  \<^verbatim>\<open>filepath.Rel\<close>, and the hash tree builder of \<^verbatim>\<open>hashtree\<close> (\<open>'t\<close> is the builder,
  \<open>'f\<close> the finished tree). The code drops the result of \<^verbatim>\<open>PutDir\<close>, so \<open>PutDir\<close> gives
  only the builder afterwards.
\<close>

record ('t, 'f) lib =
  HashDatum :: "FileInfo list \<Rightarrow> pipelineInfo \<Rightarrow> error + string"
  PPSInputPrefix :: string
  PPSOutputPath :: string
  Join :: "string \<Rightarrow> string \<Rightarrow> string"
  Rel :: "string \<Rightarrow> string \<Rightarrow> error + string"
  NewHashTree :: 't
  PutDir :: "'t \<Rightarrow> string \<Rightarrow> 't"
  PutFile :: "'t \<Rightarrow> string \<Rightarrow> BlockRef list \<Rightarrow> error option \<times> 't"
  Finish :: "'t \<Rightarrow> error + 'f"
  Serialize :: "'f \<Rightarrow> error + bytes"

text \<open>
  What the outside does during one call of \<^verbatim>\<open>Process\<close>: whether the transport of
  \<^verbatim>\<open>GetTag\<close> fails, the result of each \<^verbatim>\<open>filesync.Pull\<close>, of \<^verbatim>\<open>os.MkdirAll\<close>, of the
  user's binary, the entries \<^verbatim>\<open>filepath.Walk\<close> reports (path, and the \<^verbatim>\<open>os.FileInfo\<close>
  reduced to \<^verbatim>\<open>IsDir()\<close>, \<open>None\<close> when Walk passes a nil one), and the results of
  \<^verbatim>\<open>os.Open\<close>, \<^verbatim>\<open>PutBlock\<close>, \<^verbatim>\<open>f.Close\<close> and \<^verbatim>\<open>PutObject\<close>.
\<close>

record outcomes =
  getTag_err :: "string \<Rightarrow> error option"
  pull :: "string \<Rightarrow> FileInfo \<Rightarrow> bool \<Rightarrow> error option"
  mkdirAll :: "error option"
  run :: run_result
  walk :: "(string \<times> bool option) list"
  os_Open :: "string \<Rightarrow> error option"
  putBlock :: "string \<Rightarrow> error + BlockRef list"
  f_Close :: "string \<Rightarrow> error option"
  putObject :: "string \<Rightarrow> error option"

text \<open>\<^verbatim>\<open>pachClient.GetTag\<close> returns nil when the transport works and the store holds an
  object under the tag.\<close>

definition GetTag :: "outcomes \<Rightarrow> string \<Rightarrow> world \<Rightarrow> error option" where
  "GetTag oc tag w =
     (case getTag_err oc tag of
        Some err \<Rightarrow> Some err
      | None \<Rightarrow> (case tags w tag of None \<Rightarrow> Some ''tag not found'' | Some b \<Rightarrow> None))"

subsection \<open>\<^verbatim>\<open>downloadData\<close>\<close>

text \<open>The loop \<^verbatim>\<open>for i, datum := range data\<close>. \<^verbatim>\<open>a.pipelineInfo.Inputs[i]\<close> panics when
  \<open>i\<close> is not below the length of \<^verbatim>\<open>Inputs\<close>.\<close>

fun downloadData_from ::
  "('t, 'f) lib \<Rightarrow> pipelineInfo \<Rightarrow> outcomes \<Rightarrow> nat \<Rightarrow> FileInfo list \<Rightarrow> world
    \<Rightarrow> fault option \<times> world" where
  "downloadData_from L p oc i [] w = (None, w)"
| "downloadData_from L p oc i (datum # rest) w =
     (if i < length (Inputs p)
      then let input = Inputs p ! i;
               path = Join L (PPSInputPrefix L) (Name input);
               w' = emit (EvPull path datum (Lazy input)) w
           in (case pull oc path datum (Lazy input) of
                 Some err \<Rightarrow> (Some (Error err), w')
               | None \<Rightarrow> downloadData_from L p oc (Suc i) rest w')
      else (Some (Panic ''index out of range''), w))"

definition downloadData ::
  "('t, 'f) lib \<Rightarrow> pipelineInfo \<Rightarrow> outcomes \<Rightarrow> FileInfo list \<Rightarrow> world \<Rightarrow> fault option \<times> world" where
  "downloadData L p oc data w = downloadData_from L p oc 0 data w"

subsection \<open>\<^verbatim>\<open>runUserCode\<close>\<close>

text \<open>\<^verbatim>\<open>strings.Join(t.Stdin, "\n") + "\n"\<close>.\<close>

fun strings_Join :: "string list \<Rightarrow> string \<Rightarrow> string" where
  "strings_Join [] sep = []"
| "strings_Join [x] sep = x"
| "strings_Join (x # y # ys) sep = x @ sep @ strings_Join (y # ys) sep"

text \<open>The loop \<^verbatim>\<open>for _, returnCode := range t.AcceptReturnCode\<close>, which sets \<^verbatim>\<open>success\<close>
  when \<^verbatim>\<open>int(returnCode) == status.ExitStatus()\<close>. \<^verbatim>\<open>int\<close> has 64 bits where the worker
  runs, so the conversion of the \<^verbatim>\<open>int64\<close> is its signed value.\<close>

fun accept_loop :: "64 word list \<Rightarrow> int \<Rightarrow> bool \<Rightarrow> bool" where
  "accept_loop [] status success = success"
| "accept_loop (returnCode # rest) status success =
     accept_loop rest status (if sint returnCode = status then True else success)"

definition runUserCode ::
  "('t, 'f) lib \<Rightarrow> pipelineInfo \<Rightarrow> outcomes \<Rightarrow> world \<Rightarrow> fault option \<times> world" where
  "runUserCode L p oc w =
     (let w1 = emit (EvMkdirAll (PPSOutputPath L)) w in
      case mkdirAll oc of
        Some err \<Rightarrow> (Some (Error err), w1)
      | None \<Rightarrow>
         (let t = Transform p in
          case Cmd t of
            [] \<Rightarrow> (Some (Panic ''index out of range''), w1)
          | name # args \<Rightarrow>
             (let w2 = emit (EvRun (name # args) (strings_Join (Stdin t) [CHR 0x0A] @ [CHR 0x0A])) w1 in
              case run oc of
                RunOk \<Rightarrow> (None, w2)
              | ExitError status \<Rightarrow>
                  (let success = accept_loop (AcceptReturnCode t) (ExitStatus status) False in
                   if \<not> success then (None, emit (EvStderr ''error from exec'') w2)
                   else (None, w2))
              | RunError msg \<Rightarrow> (None, emit (EvStderr ''error from exec'') w2))))"

subsection \<open>\<^verbatim>\<open>uploadOutput\<close>\<close>

text \<open>The body of the goroutine that the walk function starts for one entry. A nil
  \<^verbatim>\<open>os.FileInfo\<close> makes \<^verbatim>\<open>info.IsDir()\<close> panic, inside the goroutine. The deferred
  \<^verbatim>\<open>f.Close()\<close> runs on every path after a successful \<^verbatim>\<open>os.Open\<close>, and its error is
  returned only when there is no earlier one.\<close>

definition upload_entry ::
  "('t, 'f) lib \<Rightarrow> outcomes \<Rightarrow> string \<times> bool option \<Rightarrow> 't \<times> world
    \<Rightarrow> fault option \<times> 't \<times> world" where
  "upload_entry L oc = (\<lambda>(path, info) (tree, w).
     if path = PPSOutputPath L then (None, tree, w)
     else case Rel L (PPSOutputPath L) path of
       Inl err \<Rightarrow> (Some (Error err), tree, w)
     | Inr relPath \<Rightarrow>
        (case info of
           None \<Rightarrow> (Some (Crash ''nil pointer dereference''), tree, w)
         | Some True \<Rightarrow> (None, PutDir L tree relPath, emit (EvPutDir relPath) w)
         | Some False \<Rightarrow>
            (let w1 = emit (EvOpen path) w in
             case os_Open oc path of
               Some err \<Rightarrow> (Some (Error err), tree, w1)
             | None \<Rightarrow>
                (let w2 = emit (EvPutBlock path) w1 in
                 case putBlock oc path of
                   Inl err \<Rightarrow> (Some (Error err), tree, emit (EvClose path) w2)
                 | Inr blockRefs \<Rightarrow>
                    (let w3 = w2\<lparr>blocks := blocks w2 @ blockRefs\<rparr>;
                         w4 = emit (EvClose path) (emit (EvPutFile relPath) w3)
                     in case PutFile L tree relPath blockRefs of
                          (Some err, tree') \<Rightarrow> (Some (Error err), tree', w4)
                        | (None, tree') \<Rightarrow> (map_option Error (f_Close oc path), tree', w4))))))"

text \<open>
  The goroutines of the \<^verbatim>\<open>errgroup.Group\<close>, run one after the other in the order the walk
  starts them (they touch the builder only under \<^verbatim>\<open>lock\<close>, and the group has no context
  that would cancel the others). \<open>first\<close> is the error \<^verbatim>\<open>g.Wait()\<close> will return: the
  first one that is not nil. A panic in a goroutine ends the process at once.
\<close>

fun upload_all ::
  "('t, 'f) lib \<Rightarrow> outcomes \<Rightarrow> (string \<times> bool option) list \<Rightarrow> fault option \<Rightarrow> 't \<times> world
    \<Rightarrow> fault option \<times> 't \<times> world" where
  "upload_all L oc [] first (tree, w) = (first, tree, w)"
| "upload_all L oc (entry # rest) first (tree, w) =
     (case upload_entry L oc entry (tree, w) of
        (Some (Crash msg), tree', w') \<Rightarrow> (Some (Crash msg), tree', w')
      | (r, tree', w') \<Rightarrow>
          upload_all L oc rest (case first of None \<Rightarrow> r | Some err \<Rightarrow> Some err) (tree', w'))"

text \<open>The walk function returns nil for every entry, so \<^verbatim>\<open>filepath.Walk\<close> returns nil.
  \<^verbatim>\<open>PutObject\<close> is taken to be atomic: when it fails, the store has no new object.\<close>

definition uploadOutput ::
  "('t, 'f) lib \<Rightarrow> outcomes \<Rightarrow> string \<Rightarrow> world \<Rightarrow> fault option \<times> world" where
  "uploadOutput L oc tag w =
     (case upload_all L oc (walk oc) None (NewHashTree L, emit (EvWalk (PPSOutputPath L)) w) of
        (Some err, tree, w1) \<Rightarrow> (Some err, w1)
      | (None, tree, w1) \<Rightarrow>
         (let w2 = emit EvFinish w1 in
          case Finish L tree of
            Inl err \<Rightarrow> (Some (Error err), w2)
          | Inr finTree \<Rightarrow>
             (let w3 = emit EvSerialize w2 in
              case Serialize L finTree of
                Inl err \<Rightarrow> (Some (Error err), w3)
              | Inr treeBytes \<Rightarrow>
                 (let w4 = emit (EvPutObject tag) w3 in
                  case putObject oc tag of
                    Some err \<Rightarrow> (Some (Error err), w4)
                  | None \<Rightarrow> (None, w4\<lparr>tags := (tags w4)(tag \<mapsto> treeBytes)\<rparr>)))))"

subsection \<open>\<^verbatim>\<open>Process\<close>\<close>

text \<open>The two deferred calls, in the order they run: \<^verbatim>\<open>a.Unlock()\<close>, then the logging
  closure. They run when the body returns or panics, not when the process has ended.\<close>

definition run_deferred :: "(fault + 'a) \<times> world \<Rightarrow> (fault + 'a) \<times> world" where
  "run_deferred = (\<lambda>(r, w).
     case r of
       Inl (Crash msg) \<Rightarrow> (r, w)
     | _ \<Rightarrow> (r, emit EvLog (emit EvUnlock w)))"

definition Process_body ::
  "('t, 'f) lib \<Rightarrow> pipelineInfo \<Rightarrow> outcomes \<Rightarrow> ProcessRequest \<Rightarrow> world
    \<Rightarrow> (fault + ProcessResponse) \<times> world" where
  "Process_body L p oc req w =
     (let w0 = emit EvLock w;
          w1 = emit EvHashDatum w0
      in case HashDatum L (Data req) p of
           Inl err \<Rightarrow> (Inl (Error err), w1)
         | Inr tag \<Rightarrow>
            (let w2 = emit (EvGetTag tag) w1 in
             case GetTag oc tag w2 of
               None \<Rightarrow> (Inr \<lparr>Tag = tag\<rparr>, w2)
             | Some _ \<Rightarrow>
                (case downloadData L p oc (Data req) w2 of
                   (Some err, w3) \<Rightarrow> (Inl err, w3)
                 | (None, w3) \<Rightarrow>
                    (case runUserCode L p oc w3 of
                       (Some err, w4) \<Rightarrow> (Inl err, w4)
                     | (None, w4) \<Rightarrow>
                        (case uploadOutput L oc tag w4 of
                           (Some err, w5) \<Rightarrow> (Inl err, w5)
                         | (None, w5) \<Rightarrow> (Inr \<lparr>Tag = tag\<rparr>, w5))))))"

definition Process ::
  "('t, 'f) lib \<Rightarrow> pipelineInfo \<Rightarrow> outcomes \<Rightarrow> ProcessRequest \<Rightarrow> world
    \<Rightarrow> (fault + ProcessResponse) \<times> world" where
  "Process L p oc req w = run_deferred (Process_body L p oc req w)"

text \<open>One event happens before another in a run: it occurs before the first occurrence
  of the other.\<close>

definition happens_before :: "event \<Rightarrow> event \<Rightarrow> event list \<Rightarrow> bool" where
  "happens_before a b evs = (a \<in> set (takeWhile (\<lambda>e. e \<noteq> b) evs))"

subsection \<open>A small worker to evaluate \<^verbatim>\<open>Process\<close> on\<close>

text \<open>
  An instance of the parameters, used only where a theorem is applied to concrete
  values. The builder is the list of the entries put so far; \<open>PutFile\<close> refuses a path
  it already has; the tag is the hashes of the datum followed by the command.
\<close>

definition demo_lib :: "(string list, string list) lib" where
  "demo_lib = \<lparr>
     HashDatum = (\<lambda>data p. Inr (concat (map f_hash data) @ '':'' @ concat (Cmd (Transform p)))),
     PPSInputPrefix = ''/pfs'',
     PPSOutputPath = ''/pfs/out'',
     Join = (\<lambda>a b. a @ ''/'' @ b),
     Rel = (\<lambda>base path. if take (length base + 1) path = base @ ''/''
                         then Inr (drop (length base + 1) path)
                         else Inl ''Rel: cannot make path relative''),
     NewHashTree = [],
     PutDir = (\<lambda>t path. t @ [path @ ''/'']),
     PutFile = (\<lambda>t path refs. if path \<in> set t then (Some ''path exists'', t)
                               else (None, t @ [path])),
     Finish = (\<lambda>t. Inr t),
     Serialize = (\<lambda>t. Inr (concat (map (\<lambda>x. x @ '';'') t))) \<rparr>"

definition demo_pipeline :: pipelineInfo where
  "demo_pipeline = \<lparr>
     Transform = \<lparr> Cmd = [''false''], Stdin = [], AcceptReturnCode = [] \<rparr>,
     Inputs = [\<lparr> Name = ''in'', Lazy = False \<rparr>] \<rparr>"

definition demo_pipeline_accept3 :: pipelineInfo where
  "demo_pipeline_accept3 = \<lparr>
     Transform = \<lparr> Cmd = [''sh'', ''-c'', ''exit 3''], Stdin = [], AcceptReturnCode = [3] \<rparr>,
     Inputs = [\<lparr> Name = ''in'', Lazy = False \<rparr>] \<rparr>"

definition demo_request :: ProcessRequest where
  "demo_request = \<lparr> Data = [\<lparr> f_path = ''x'', f_hash = ''h1'' \<rparr>] \<rparr>"

definition demo_request2 :: ProcessRequest where
  "demo_request2 = \<lparr> Data = [\<lparr> f_path = ''x'', f_hash = ''h1'' \<rparr>, \<lparr> f_path = ''y'', f_hash = ''h2'' \<rparr>] \<rparr>"

definition demo_outcomes :: "run_result \<Rightarrow> outcomes" where
  "demo_outcomes r = \<lparr>
     getTag_err = (\<lambda>tag. None),
     pull = (\<lambda>path datum lazy. None),
     mkdirAll = None,
     run = r,
     walk = [(''/pfs/out'', Some True), (''/pfs/out/a.txt'', Some False)],
     os_Open = (\<lambda>path. None),
     putBlock = (\<lambda>path. Inr [''block-of-'' @ path]),
     f_Close = (\<lambda>path. None),
     putObject = (\<lambda>tag. None) \<rparr>"

definition demo_world :: world where
  "demo_world = \<lparr> tags = Map.empty, blocks = [], events = [] \<rparr>"

section \<open>Predicates on runs\<close>

text \<open>
  Used to state and prove the properties below, not part of the program: the events of
  the mutex and of the deferred log, the events a goroutine of \<^verbatim>\<open>uploadOutput\<close> makes,
  and the relation between a world and a later one that has the same tags and more
  events, all of one kind.
\<close>

fun lock_event :: "event \<Rightarrow> bool" where
  "lock_event EvLock = True"
| "lock_event EvUnlock = True"
| "lock_event EvLog = True"
| "lock_event _ = False"

fun transfer_event :: "event \<Rightarrow> bool" where
  "transfer_event (EvPutDir x) = True"
| "transfer_event (EvOpen x) = True"
| "transfer_event (EvPutBlock x) = True"
| "transfer_event (EvPutFile x) = True"
| "transfer_event (EvClose x) = True"
| "transfer_event _ = False"

definition extends :: "(event \<Rightarrow> bool) \<Rightarrow> world \<Rightarrow> world \<Rightarrow> bool" where
  "extends P w w' = (tags w' = tags w \<and> (\<exists>evs. events w' = events w @ evs \<and> list_all P evs))"

section \<open>Properties of the commit store\<close>

text \<open>
  Claim C4. On the in-memory store, \<^verbatim>\<open>AddFileset\<close> on a commit that has a finished total
  returns an error; the staging list and the finished total of the commit are as before,
  and the storage is untouched, so no clone was made.
\<close>

theorem C4_mem_AddFileset_on_finished:
  assumes "finished s (commitKey D c) = Some x"
  shows "\<exists>err s' st'. mem_AddFileset D c f (s, st) = (Some err, s', st')
           \<and> staging s' = staging s \<and> finished s' = finished s \<and> s' = s \<and> st' = st"
  using assms by (simp add: mem_AddFileset_def)

theorem C4_witness:
  "finished (newMemCommitStore\<lparr>finished := [''repo/c1'' \<mapsto> ''F'']\<rparr>) (commitKey demo_deps demo_commit)
      = Some ''F''
   \<and> mem_AddFileset demo_deps demo_commit ''g''
        (newMemCommitStore\<lparr>finished := [''repo/c1'' \<mapsto> ''F'']\<rparr>, [''F''])
      = (Some (Error ''commit is finished''),
         newMemCommitStore\<lparr>finished := [''repo/c1'' \<mapsto> ''F'']\<rparr>, [''F''])"
proof -
  let ?s = "newMemCommitStore\<lparr>finished := [''repo/c1'' \<mapsto> ''F'']\<rparr>"
  have h: "finished ?s (commitKey demo_deps demo_commit) = Some ''F''"
    by (simp add: demo_deps_def demo_commit_def)
  from C4_mem_AddFileset_on_finished [OF h, of "''g''" "[''F'']"]
  show ?thesis using h by (auto simp: mem_AddFileset_def)
qed

lemma insort_key_snoc:
  "f a \<le> f x \<Longrightarrow> list_all (\<lambda>y. f y \<le> f x) ys \<Longrightarrow> insort_key f a (ys @ [x]) = insort_key f a ys @ [x]"
  by (induction ys) auto

lemma sort_key_snoc:
  "list_all (\<lambda>y. f y < f x) xs \<Longrightarrow> sort_key f (xs @ [x]) = sort_key f xs @ [x]"
proof (induction xs)
  case Nil
  then show ?case by simp
next
  case (Cons a xs)
  have "list_all (\<lambda>y. f y \<le> f x) (sort_key f xs)"
    using Cons.prems by (auto simp: list_all_iff)
  moreover have "f a \<le> f x" using Cons.prems by (auto intro: less_imp_le)
  ultimately have "insort_key f a (sort_key f xs @ [x]) = insort_key f a (sort_key f xs) @ [x]"
    by (simp add: insort_key_snoc)
  then show ?case using Cons by simp
qed

lemma getDiff_rows:
  "getDiff db c = Inr (map d_fileset_id (sort_key d_num
      (filter (\<lambda>r. d_commit_id r = ID c \<and> d_repo_name r = Repo_Name c) (commit_diffs db))))"
  by (simp add: getDiff_def select_commit_diffs_def)

lemma getTotal_rows:
  "getTotal db c =
     (case filter (\<lambda>r. t_commit_id r = ID c \<and> t_repo_name r = Repo_Name c) (commit_totals db) of
        [] \<Rightarrow> Inl ErrNoRows | r # _ \<Rightarrow> Inr (t_fileset_id r))"
  by (simp add: getTotal_def select_commit_totals_def)

lemma insert_commit_diffs_last:
  assumes ok: "db_ok db"
    and ins: "insert_commit_diffs [Repo_Name c, ID c, x] db = (Inr n, db')"
  shows "getDiff db' c = (case getDiff db c of Inr ids \<Rightarrow> Inr (ids @ [x]) | Inl e \<Rightarrow> Inl e)"
    and "db_ok db'"
    and "Repo_Name c' \<noteq> Repo_Name c \<or> ID c' \<noteq> ID c \<Longrightarrow> getDiff db' c' = getDiff db c'"
proof -
  let ?row = "\<lparr>d_repo_name = Repo_Name c, d_commit_id = ID c, d_num = num_seq db + 1, d_fileset_id = x\<rparr>"
  from ins have small: "\<not> num_seq db \<ge> 2147483647"
    by (auto simp: insert_commit_diffs_def split: if_splits)
  with ins have db': "db' = db\<lparr>commit_diffs := commit_diffs db @ [?row], num_seq := num_seq db + 1\<rparr>"
    by (auto simp: insert_commit_diffs_def Let_def)
  let ?P = "\<lambda>r. d_commit_id r = ID c \<and> d_repo_name r = Repo_Name c"
  have "list_all (\<lambda>y. d_num y < d_num ?row) (filter ?P (commit_diffs db))"
    using ok by (auto simp: db_ok_def list_all_iff)
  then have "sort_key d_num (filter ?P (commit_diffs db) @ [?row])
               = sort_key d_num (filter ?P (commit_diffs db)) @ [?row]"
    by (rule sort_key_snoc)
  then show "getDiff db' c = (case getDiff db c of Inr ids \<Rightarrow> Inr (ids @ [x]) | Inl e \<Rightarrow> Inl e)"
    by (simp add: getDiff_rows db')
  show "db_ok db'"
    using ok by (auto simp: db_ok_def db' list_all_iff)
  show "getDiff db' c' = getDiff db c'" if "Repo_Name c' \<noteq> Repo_Name c \<or> ID c' \<noteq> ID c"
    using that by (auto simp: getDiff_rows db')
qed

lemma pg_AddFileset_ok:
  assumes "pg_AddFileset D c f (db, st) = (None, db', st')"
  shows "\<exists>id2 n. Clone D st f (NoTTL D) = (Inr id2, st')
           \<and> insert_commit_diffs [Repo_Name c, ID c, id2] db = (Inr n, db')"
  using assms by (auto simp: pg_AddFileset_def split: prod.splits sum.splits)

lemma mem_AddFileset_ok:
  assumes "mem_AddFileset D c f (s, st) = (None, s', st')"
  shows "\<exists>cid. Clone D st f (NoTTL D) = (Inr cid, st')
           \<and> staging_at s' (commitKey D c) = staging_at s (commitKey D c) @ [cid]
           \<and> finished s' = finished s"
  using assms
  by (auto simp: mem_AddFileset_def Let_def staging_at_def split: option.splits prod.splits sum.splits)

lemma pg_DropFilesets_never_succeeds: "fst (pg_DropFilesets D c (db, st)) \<noteq> None"
  by (auto simp: pg_DropFilesets_def delete_commit_diffs_def split: sum.splits prod.splits option.splits)

lemma mem_DropFilesets_removes:
  "mem_DropFilesets D c (s, st) = (None, s', st') \<Longrightarrow>
     staging s' (commitKey D c) = None \<and> finished s' (commitKey D c) = None"
  by (auto simp: mem_DropFilesets_def Let_def)

lemma getTotal_no_rows:
  "filter (\<lambda>r. t_commit_id r = ID c \<and> t_repo_name r = Repo_Name c) (commit_totals db) = []
     \<Longrightarrow> getTotal db c = Inl ErrNoRows"
  by (simp add: getTotal_rows)

lemma demo_simps:
  "commitKey demo_deps demo_commit = ''repo/c1''"
  "Clone demo_deps = demo_Clone" "Compose demo_deps = demo_Compose" "Drop demo_deps = demo_Drop"
  "NoTTL demo_deps = 0" "defaultTTL demo_deps = 600"
  "ID demo_commit = ''c1''" "Repo_Name demo_commit = ''repo''"
  by (simp_all add: demo_deps_def demo_commit_def)

text \<open>
  Claim C3. \<^verbatim>\<open>GetFileset\<close> returns a clone of the finished total when the commit has
  one, and otherwise the composition of the staging sequence. In the in-memory store the
  sequence is the staging list, to which a successful \<^verbatim>\<open>AddFileset\<close> appends its clone at
  the end. In the transactional store the total is the row of \<^verbatim>\<open>commit_totals\<close>, the
  sequence is the diff rows of the commit ordered by \<^verbatim>\<open>num\<close>, and a successful
  \<^verbatim>\<open>AddFileset\<close> puts its clone last in that order.
\<close>

theorem C3_GetFileset:
  "(finished s (commitKey D c) = Some x \<longrightarrow>
      mem_GetFileset D c (s, st) = Clone D st x (defaultTTL D))
   \<and> (finished s (commitKey D c) = None \<longrightarrow>
      mem_GetFileset D c (s, st) = Compose D st (staging_at s (commitKey D c)) (defaultTTL D))
   \<and> (mem_AddFileset D c f (s, st) = (None, s', st') \<longrightarrow>
      (\<exists>cid. Clone D st f (NoTTL D) = (Inr cid, st')
         \<and> staging_at s' (commitKey D c) = staging_at s (commitKey D c) @ [cid]))
   \<and> (filter (\<lambda>r. t_commit_id r = ID c \<and> t_repo_name r = Repo_Name c) (commit_totals db) = t # ts \<longrightarrow>
      pg_GetFileset D c (db, st) = Clone D st (t_fileset_id t) (defaultTTL D))
   \<and> (filter (\<lambda>r. t_commit_id r = ID c \<and> t_repo_name r = Repo_Name c) (commit_totals db) = [] \<longrightarrow>
      pg_GetFileset D c (db, st) =
        Compose D st
          (map d_fileset_id (sort_key d_num
             (filter (\<lambda>r. d_commit_id r = ID c \<and> d_repo_name r = Repo_Name c) (commit_diffs db))))
          (defaultTTL D))
   \<and> (db_ok db \<and> pg_AddFileset D c f (db, st) = (None, db', st') \<longrightarrow>
      (\<exists>id2 ids. Clone D st f (NoTTL D) = (Inr id2, st')
         \<and> getDiff db c = Inr ids \<and> getDiff db' c = Inr (ids @ [id2]) \<and> db_ok db'))"
proof (intro conjI impI)
  assume "finished s (commitKey D c) = Some x"
  then show "mem_GetFileset D c (s, st) = Clone D st x (defaultTTL D)"
    by (simp add: mem_GetFileset_def)
next
  assume "finished s (commitKey D c) = None"
  then show "mem_GetFileset D c (s, st) = Compose D st (staging_at s (commitKey D c)) (defaultTTL D)"
    by (simp add: mem_GetFileset_def)
next
  assume "mem_AddFileset D c f (s, st) = (None, s', st')"
  from mem_AddFileset_ok [OF this]
  show "\<exists>cid. Clone D st f (NoTTL D) = (Inr cid, st')
         \<and> staging_at s' (commitKey D c) = staging_at s (commitKey D c) @ [cid]"
    by blast
next
  assume "filter (\<lambda>r. t_commit_id r = ID c \<and> t_repo_name r = Repo_Name c) (commit_totals db) = t # ts"
  then show "pg_GetFileset D c (db, st) = Clone D st (t_fileset_id t) (defaultTTL D)"
    by (simp add: pg_GetFileset_def getTotal_rows)
next
  assume "filter (\<lambda>r. t_commit_id r = ID c \<and> t_repo_name r = Repo_Name c) (commit_totals db) = []"
  then show "pg_GetFileset D c (db, st) =
        Compose D st
          (map d_fileset_id (sort_key d_num
             (filter (\<lambda>r. d_commit_id r = ID c \<and> d_repo_name r = Repo_Name c) (commit_diffs db))))
          (defaultTTL D)"
    by (simp add: pg_GetFileset_def getTotal_rows getDiff_rows)
next
  assume a: "db_ok db \<and> pg_AddFileset D c f (db, st) = (None, db', st')"
  then have ok: "db_ok db" and add: "pg_AddFileset D c f (db, st) = (None, db', st')"
    by simp_all
  from pg_AddFileset_ok [OF add]
  obtain id2 n where cl: "Clone D st f (NoTTL D) = (Inr id2, st')"
    and ins: "insert_commit_diffs [Repo_Name c, ID c, id2] db = (Inr n, db')"
    by blast
  obtain ids where ids: "getDiff db c = Inr ids" by (simp add: getDiff_rows)
  have "getDiff db' c = Inr (ids @ [id2])"
    using insert_commit_diffs_last(1) [OF ok ins] ids by simp
  moreover have "db_ok db'" using insert_commit_diffs_last(2) [OF ok ins] .
  ultimately show "\<exists>id2 ids. Clone D st f (NoTTL D) = (Inr id2, st')
         \<and> getDiff db c = Inr ids \<and> getDiff db' c = Inr (ids @ [id2]) \<and> db_ok db'"
    using cl ids by blast
qed

theorem C3_witness:
  "finished demo_mem_finished (commitKey demo_deps demo_commit) = Some ''F''
   \<and> mem_GetFileset demo_deps demo_commit (demo_mem_finished, []) = (Inr ''F~'', [''F~''])
   \<and> finished demo_mem_open (commitKey demo_deps demo_commit) = None
   \<and> mem_GetFileset demo_deps demo_commit (demo_mem_open, []) = (Inr ''compose(a+b+)'', [''compose(a+b+)''])
   \<and> mem_AddFileset demo_deps demo_commit ''c'' (demo_mem_open, [])
       = (None, demo_mem_open\<lparr>staging := [''repo/c1'' \<mapsto> [''a'', ''b'', ''c~'']]\<rparr>, [''c~''])
   \<and> pg_GetFileset demo_deps demo_commit (demo_db_total, []) = (Inr ''T~'', [''T~''])
   \<and> pg_GetFileset demo_deps demo_commit (demo_db_open, []) = (Inr ''compose(f1+f2+)'', [''compose(f1+f2+)''])
   \<and> db_ok demo_db_open
   \<and> fst (pg_AddFileset demo_deps demo_commit ''h'' (demo_db_open, [])) = None
   \<and> getDiff (fst (snd (pg_AddFileset demo_deps demo_commit ''h'' (demo_db_open, [])))) demo_commit
       = Inr [''f1'', ''f2'', ''h~'']"
proof -
  have h1: "finished demo_mem_finished (commitKey demo_deps demo_commit) = Some ''F''"
    by (simp add: demo_simps demo_mem_finished_def)
  have h2: "finished demo_mem_open (commitKey demo_deps demo_commit) = None"
    by (simp add: demo_simps demo_mem_open_def)
  have h3: "mem_AddFileset demo_deps demo_commit ''c'' (demo_mem_open, [])
       = (None, demo_mem_open\<lparr>staging := [''repo/c1'' \<mapsto> [''a'', ''b'', ''c~'']]\<rparr>, [''c~''])"
    by (simp add: mem_AddFileset_def demo_simps demo_mem_open_def demo_Clone_def staging_at_def)
  have h4: "filter (\<lambda>r. t_commit_id r = ID demo_commit \<and> t_repo_name r = Repo_Name demo_commit)
              (commit_totals demo_db_total)
            = \<lparr>t_repo_name = ''repo'', t_commit_id = ''c1'', t_fileset_id = ''T''\<rparr> # []"
    by (simp add: demo_simps demo_db_total_def)
  have h5: "filter (\<lambda>r. t_commit_id r = ID demo_commit \<and> t_repo_name r = Repo_Name demo_commit)
              (commit_totals demo_db_open) = []"
    by (simp add: demo_db_open_def)
  have h6: "db_ok demo_db_open"
    by (simp add: db_ok_def demo_db_open_def)
  have h7: "pg_AddFileset demo_deps demo_commit ''h'' (demo_db_open, [])
              = (None, demo_db_open\<lparr>commit_diffs := commit_diffs demo_db_open @
                   [\<lparr>d_repo_name = ''repo'', d_commit_id = ''c1'', d_num = 4, d_fileset_id = ''h~''\<rparr>],
                   num_seq := 4\<rparr>, [''h~''])"
    by (simp add: pg_AddFileset_def demo_simps demo_Clone_def insert_commit_diffs_def demo_db_open_def)
  have d: "getDiff demo_db_open demo_commit = Inr [''f1'', ''f2'']"
    by (simp add: getDiff_rows demo_simps demo_db_open_def)
  note T = C3_GetFileset [where D = demo_deps and c = demo_commit and st = "[]"]
  from T [where s = demo_mem_finished and x = "''F''"] h1
  have g1: "mem_GetFileset demo_deps demo_commit (demo_mem_finished, []) = (Inr ''F~'', [''F~''])"
    by (simp add: demo_simps demo_Clone_def)
  from T [where s = demo_mem_open] h2
  have g2: "mem_GetFileset demo_deps demo_commit (demo_mem_open, []) = (Inr ''compose(a+b+)'', [''compose(a+b+)''])"
    by (simp add: demo_simps demo_Compose_def staging_at_def demo_mem_open_def)
  from T [where db = demo_db_total and t = "\<lparr>t_repo_name = ''repo'', t_commit_id = ''c1'', t_fileset_id = ''T''\<rparr>" and ts = "[]"] h4
  have g3: "pg_GetFileset demo_deps demo_commit (demo_db_total, []) = (Inr ''T~'', [''T~''])"
    by (simp add: demo_simps demo_Clone_def)
  from T [where db = demo_db_open] h5
  have g4: "pg_GetFileset demo_deps demo_commit (demo_db_open, []) = (Inr ''compose(f1+f2+)'', [''compose(f1+f2+)''])"
    by (simp add: demo_simps demo_Compose_def demo_db_open_def)
  from T [where db = demo_db_open and f = "''h''" and st' = "[''h~'']"
       and db' = "demo_db_open\<lparr>commit_diffs := commit_diffs demo_db_open @
                   [\<lparr>d_repo_name = ''repo'', d_commit_id = ''c1'', d_num = 4, d_fileset_id = ''h~''\<rparr>],
                   num_seq := 4\<rparr>"] h6 h7 d
  have g5: "getDiff (fst (snd (pg_AddFileset demo_deps demo_commit ''h'' (demo_db_open, [])))) demo_commit
       = Inr [''f1'', ''f2'', ''h~'']"
    by (auto simp: demo_simps demo_Clone_def)
  show ?thesis using h1 h2 h3 h6 h7 g1 g2 g3 g4 g5 by simp
qed

text \<open>
  Claim C10. For a commit with no finished total and no staged fileset, also one the
  store has never seen, \<^verbatim>\<open>GetFileset\<close> gives what \<^verbatim>\<open>Compose\<close> gives on the empty sequence
  of identifiers, in both stores: no not-found error is made up by the commit store.
\<close>

theorem C10_GetFileset_empty:
  "(finished s (commitKey D c) = None \<and> staging_at s (commitKey D c) = [] \<longrightarrow>
      mem_GetFileset D c (s, st) = Compose D st [] (defaultTTL D))
   \<and> mem_GetFileset D c (newMemCommitStore, st) = Compose D st [] (defaultTTL D)
   \<and> (filter (\<lambda>r. t_commit_id r = ID c \<and> t_repo_name r = Repo_Name c) (commit_totals db) = []
      \<and> filter (\<lambda>r. d_commit_id r = ID c \<and> d_repo_name r = Repo_Name c) (commit_diffs db) = [] \<longrightarrow>
      pg_GetFileset D c (db, st) = Compose D st [] (defaultTTL D))
   \<and> pg_GetFileset D c (\<lparr>commit_diffs = [], commit_totals = [], num_seq = 0\<rparr>, st)
       = Compose D st [] (defaultTTL D)"
  by (simp add: mem_GetFileset_def newMemCommitStore_def staging_at_def pg_GetFileset_def
      getTotal_rows getDiff_rows)

theorem C10_witness:
  "finished (newMemCommitStore\<lparr>staging := [''repo/c1'' \<mapsto> []]\<rparr>) (commitKey demo_deps demo_commit) = None
   \<and> staging_at (newMemCommitStore\<lparr>staging := [''repo/c1'' \<mapsto> []]\<rparr>) (commitKey demo_deps demo_commit) = []
   \<and> mem_GetFileset demo_deps demo_commit (newMemCommitStore\<lparr>staging := [''repo/c1'' \<mapsto> []]\<rparr>, [])
       = (Inr ''compose()'', [''compose()''])
   \<and> mem_GetFileset demo_deps demo_commit (newMemCommitStore, []) = (Inr ''compose()'', [''compose()''])
   \<and> pg_GetFileset demo_deps \<lparr>Repo_Name = ''repo'', ID = ''c2''\<rparr> (demo_db_open, [])
       = (Inr ''compose()'', [''compose()''])"
proof -
  let ?s = "newMemCommitStore\<lparr>staging := [''repo/c1'' \<mapsto> []]\<rparr>"
  let ?c2 = "\<lparr>Repo_Name = ''repo'', ID = ''c2''\<rparr>"
  have h1: "finished ?s (commitKey demo_deps demo_commit) = None
            \<and> staging_at ?s (commitKey demo_deps demo_commit) = []"
    by (simp add: demo_simps newMemCommitStore_def staging_at_def)
  have h2: "filter (\<lambda>r. t_commit_id r = ID ?c2 \<and> t_repo_name r = Repo_Name ?c2) (commit_totals demo_db_open) = []
      \<and> filter (\<lambda>r. d_commit_id r = ID ?c2 \<and> d_repo_name r = Repo_Name ?c2) (commit_diffs demo_db_open) = []"
    by (simp add: demo_db_open_def)
  from C10_GetFileset_empty [where D = demo_deps and c = demo_commit and s = ?s and st = "[]" and db = demo_db_open] h1
  have g1: "mem_GetFileset demo_deps demo_commit (?s, []) = (Inr ''compose()'', [''compose()''])"
    and g2: "mem_GetFileset demo_deps demo_commit (newMemCommitStore, []) = (Inr ''compose()'', [''compose()''])"
    by (simp_all add: demo_simps demo_Compose_def)
  from C10_GetFileset_empty [where D = demo_deps and c = ?c2 and db = demo_db_open and st = "[]"] h2
  have g3: "pg_GetFileset demo_deps ?c2 (demo_db_open, []) = (Inr ''compose()'', [''compose()''])"
    by (simp add: demo_simps demo_Compose_def)
  show ?thesis using h1 g1 g2 g3 by simp
qed

text \<open>
  Claim C7, evaluated on the transactional store for a commit that has one diff and no
  total: \<^verbatim>\<open>DropFilesets\<close> drops the diff's fileset from the storage, then fails at the
  first \<^verbatim>\<open>DELETE\<close>, and the diff row is still in the table.
\<close>

theorem C7_pg_DropFilesets_fails:
  "pg_DropFilesets demo_deps demo_commit
     (\<lparr> commit_diffs = [\<lparr>d_repo_name = ''repo'', d_commit_id = ''c1'', d_num = 1, d_fileset_id = ''f1''\<rparr>],
        commit_totals = [], num_seq = 1 \<rparr>, [''f1''])
   = (Some ErrParams,
      \<lparr> commit_diffs = [\<lparr>d_repo_name = ''repo'', d_commit_id = ''c1'', d_num = 1, d_fileset_id = ''f1''\<rparr>],
        commit_totals = [], num_seq = 1 \<rparr>, [])"
  by (simp add: pg_DropFilesets_def getDiff_rows demo_simps demo_Drop_def delete_commit_diffs_def)

section \<open>Properties of the worker\<close>

lemma emit_simps [simp]:
  "events (emit e w) = events w @ [e]" "tags (emit e w) = tags w" "blocks (emit e w) = blocks w"
  by (simp_all add: emit_def)

lemma extends_refl: "extends P w w"
  by (simp add: extends_def)

lemma extends_trans: "extends P w w' \<Longrightarrow> extends P w' w'' \<Longrightarrow> extends P w w''"
  by (auto simp: extends_def)

lemma extends_emit: "P e \<Longrightarrow> extends P w (emit e w)"
  by (simp add: extends_def)

lemma extends_emit_right: "P e \<Longrightarrow> extends P w w' \<Longrightarrow> extends P w (emit e w')"
  by (auto simp: extends_def)

lemma extends_blocks: "extends P w w' \<Longrightarrow> extends P w (w'\<lparr>blocks := b\<rparr>)"
  by (simp add: extends_def)

lemma transfer_not_lock: "transfer_event e \<Longrightarrow> \<not> lock_event e"
  by (cases e) simp_all

lemma downloadData_from_extends:
  "extends (\<lambda>e. \<not> lock_event e) w (snd (downloadData_from L p oc i data w))"
proof (induction data arbitrary: i w)
  case Nil
  show ?case by (simp add: extends_refl)
next
  case (Cons datum rest)
  let ?input = "Inputs p ! i"
  let ?ev = "EvPull (Join L (PPSInputPrefix L) (Name ?input)) datum (Lazy ?input)"
  have step: "extends (\<lambda>e. \<not> lock_event e) w (emit ?ev w)"
    by (rule extends_emit) simp
  from extends_trans [OF step Cons.IH [of "emit ?ev w" "Suc i"]] step
  show ?case
    by (simp add: Let_def extends_refl split: option.splits)
qed

lemma runUserCode_extends:
  "extends (\<lambda>e. \<not> lock_event e) w (snd (runUserCode L p oc w))"
  by (auto simp: runUserCode_def Let_def split: option.splits list.splits run_result.splits
      intro!: extends_emit_right extends_refl)

lemma upload_entry_extends:
  "extends transfer_event w (snd (snd (upload_entry L oc entry (tree, w))))"
proof -
  obtain path info where entry: "entry = (path, info)" by (cases entry)
  show ?thesis
    unfolding entry upload_entry_def
    by (auto simp: Let_def extends_refl split: sum.splits option.splits bool.splits prod.splits
        intro!: extends_emit_right extends_blocks extends_refl)
qed

lemma upload_all_extends:
  "extends transfer_event w (snd (snd (upload_all L oc entries first (tree, w))))"
proof (induction entries arbitrary: first tree w)
  case Nil
  show ?case by (simp add: extends_refl)
next
  case (Cons entry rest)
  obtain r tree' w' where step: "upload_entry L oc entry (tree, w) = (r, tree', w')"
    by (cases "upload_entry L oc entry (tree, w)") auto
  have e1: "extends transfer_event w w'"
    using upload_entry_extends [of w L oc entry tree] step by simp
  show ?case
  proof (cases "\<exists>msg. r = Some (Crash msg)")
    case True
    with step e1 show ?thesis by auto
  next
    case False
    then have "upload_all L oc (entry # rest) first (tree, w)
                 = upload_all L oc rest (case first of None \<Rightarrow> r | Some err \<Rightarrow> Some err) (tree', w')"
      using step by (auto split: option.splits fault.splits)
    with extends_trans [OF e1 Cons.IH] show ?thesis by simp
  qed
qed

lemma uploadOutput_error_tags:
  "fst (uploadOutput L oc tag w) = Some err \<Longrightarrow> tags (snd (uploadOutput L oc tag w)) = tags w"
proof -
  assume a: "fst (uploadOutput L oc tag w) = Some err"
  obtain r tree w1 where up: "upload_all L oc (walk oc) None (NewHashTree L, emit (EvWalk (PPSOutputPath L)) w) = (r, tree, w1)"
    by (metis prod_cases3)
  have "extends transfer_event (emit (EvWalk (PPSOutputPath L)) w) w1"
    using upload_all_extends [of "emit (EvWalk (PPSOutputPath L)) w" L oc "walk oc" None "NewHashTree L"] up by simp
  then have t: "tags w1 = tags w" by (simp add: extends_def)
  from a up t show ?thesis
    by (auto simp: uploadOutput_def Let_def split: option.splits sum.splits)
qed

lemma uploadOutput_ok_tags:
  "fst (uploadOutput L oc tag w) = None \<Longrightarrow>
     \<exists>treeBytes. tags (snd (uploadOutput L oc tag w)) = (tags w)(tag \<mapsto> treeBytes)"
proof -
  assume a: "fst (uploadOutput L oc tag w) = None"
  obtain r tree w1 where up: "upload_all L oc (walk oc) None (NewHashTree L, emit (EvWalk (PPSOutputPath L)) w) = (r, tree, w1)"
    by (metis prod_cases3)
  have "extends transfer_event (emit (EvWalk (PPSOutputPath L)) w) w1"
    using upload_all_extends [of "emit (EvWalk (PPSOutputPath L)) w" L oc "walk oc" None "NewHashTree L"] up by simp
  then have t: "tags w1 = tags w" by (simp add: extends_def)
  from a up t show ?thesis
    by (auto simp: uploadOutput_def Let_def split: option.splits sum.splits)
qed

lemma GetTag_emit [simp]: "GetTag oc tag (emit e w) = GetTag oc tag w"
  by (simp add: GetTag_def split: option.splits)

lemma downloadData_from_in_range:
  "i + length data \<le> length (Inputs p) \<Longrightarrow>
     fst (downloadData_from L p oc i data w) = None
     \<or> (\<exists>err. fst (downloadData_from L p oc i data w) = Some (Error err))"
proof (induction data arbitrary: i w)
  case Nil
  then show ?case by simp
next
  case (Cons datum rest)
  then have "i < length (Inputs p)" and "Suc i + length rest \<le> length (Inputs p)" by simp_all
  with Cons.IH [of "Suc i"] show ?case
    by (simp add: Let_def split: option.splits)
qed

lemma downloadData_from_out_of_range:
  "i \<le> length (Inputs p) \<Longrightarrow> length (Inputs p) < i + length data \<Longrightarrow>
   (\<And>path datum lazy. pull oc path datum lazy = None) \<Longrightarrow>
     fst (downloadData_from L p oc i data w) = Some (Panic ''index out of range'')"
proof (induction data arbitrary: i w)
  case Nil
  then show ?case by simp
next
  case (Cons datum rest)
  show ?case
  proof (cases "i < length (Inputs p)")
    case True
    then have "Suc i \<le> length (Inputs p)" "length (Inputs p) < Suc i + length rest"
      using Cons.prems by simp_all
    from Cons.IH [OF this Cons.prems(3)] True Cons.prems(3) show ?thesis
      by (simp add: Let_def)
  next
    case False
    then show ?thesis by simp
  qed
qed

text \<open>
  Claim C9. \<^verbatim>\<open>downloadData\<close> reads \<^verbatim>\<open>Inputs[i]\<close> for the \<open>i\<close>-th datum with no bounds
  check. When the request has at most as many data entries as the pipeline has inputs,
  the call never panics; when it has more and every pull succeeds, the call panics with
  an index out of range; and such a request exists.
\<close>

theorem C9_downloadData_index:
  "(length data \<le> length (Inputs p) \<longrightarrow>
      (\<forall>msg. fst (downloadData L p oc data w) \<noteq> Some (Panic msg)))
   \<and> (length (Inputs p) < length data \<and> (\<forall>path datum lazy. pull oc path datum lazy = None) \<longrightarrow>
      fst (downloadData L p oc data w) = Some (Panic ''index out of range''))
   \<and> (\<exists>data' p' oc' w'. length (Inputs p') < length data'
        \<and> fst (downloadData L p' oc' data' w') = Some (Panic ''index out of range''))"
proof (intro conjI impI allI)
  fix msg
  assume "length data \<le> length (Inputs p)"
  then have "0 + length data \<le> length (Inputs p)" by simp
  from downloadData_from_in_range [OF this, of L oc w]
  show "fst (downloadData L p oc data w) \<noteq> Some (Panic msg)"
    by (auto simp: downloadData_def)
next
  assume a: "length (Inputs p) < length data \<and> (\<forall>path datum lazy. pull oc path datum lazy = None)"
  then have "length (Inputs p) < 0 + length data" by simp
  from downloadData_from_out_of_range [OF _ this, of oc L w] a
  show "fst (downloadData L p oc data w) = Some (Panic ''index out of range'')"
    by (simp add: downloadData_def)
next
  let ?p = "\<lparr> Transform = \<lparr> Cmd = [], Stdin = [], AcceptReturnCode = [] \<rparr>, Inputs = [] \<rparr>"
  let ?d = "[\<lparr> f_path = ''x'', f_hash = ''h1'' \<rparr>]"
  have "length (Inputs ?p) < length ?d
        \<and> fst (downloadData L ?p (demo_outcomes RunOk) ?d demo_world) = Some (Panic ''index out of range'')"
    by (simp add: downloadData_def)
  then show "\<exists>data' p' oc' w'. length (Inputs p') < length data'
        \<and> fst (downloadData L p' oc' data' w') = Some (Panic ''index out of range'')"
    by blast
qed

lemma demo_worker_simps:
  "Inputs demo_pipeline = [\<lparr> Name = ''in'', Lazy = False \<rparr>]"
  "Transform demo_pipeline = \<lparr> Cmd = [''false''], Stdin = [], AcceptReturnCode = [] \<rparr>"
  "Data demo_request = [\<lparr> f_path = ''x'', f_hash = ''h1'' \<rparr>]"
  "Data demo_request2 = [\<lparr> f_path = ''x'', f_hash = ''h1'' \<rparr>, \<lparr> f_path = ''y'', f_hash = ''h2'' \<rparr>]"
  "pull (demo_outcomes r) = (\<lambda>path datum lazy. None)"
  "getTag_err (demo_outcomes r) = (\<lambda>tag. None)"
  "mkdirAll (demo_outcomes r) = None"
  "run (demo_outcomes r) = r"
  "walk (demo_outcomes r) = [(''/pfs/out'', Some True), (''/pfs/out/a.txt'', Some False)]"
  "os_Open (demo_outcomes r) = (\<lambda>path. None)"
  "putBlock (demo_outcomes r) = (\<lambda>path. Inr [''block-of-'' @ path])"
  "f_Close (demo_outcomes r) = (\<lambda>path. None)"
  "putObject (demo_outcomes r) = (\<lambda>tag. None)"
  "PPSInputPrefix demo_lib = ''/pfs''"
  "PPSOutputPath demo_lib = ''/pfs/out''"
  "Join demo_lib = (\<lambda>a b. a @ ''/'' @ b)"
  "NewHashTree demo_lib = []"
  "Finish demo_lib = (\<lambda>t. Inr t)"
  by (simp_all add: demo_pipeline_def demo_request_def demo_request2_def demo_outcomes_def demo_lib_def)

theorem C9_witness:
  "length (Data demo_request) \<le> length (Inputs demo_pipeline)
   \<and> fst (downloadData demo_lib demo_pipeline (demo_outcomes RunOk) (Data demo_request) demo_world) = None
   \<and> length (Inputs demo_pipeline) < length (Data demo_request2)
   \<and> fst (downloadData demo_lib demo_pipeline (demo_outcomes RunOk) (Data demo_request2) demo_world)
       = Some (Panic ''index out of range'')"
proof -
  have h1: "length (Data demo_request) \<le> length (Inputs demo_pipeline)"
    and h2: "length (Inputs demo_pipeline) < length (Data demo_request2)"
    and h3: "\<forall>path datum lazy. pull (demo_outcomes RunOk) path datum lazy = None"
    by (simp_all add: demo_worker_simps)
  have v: "fst (downloadData demo_lib demo_pipeline (demo_outcomes RunOk) (Data demo_request) demo_world) = None"
    by (simp add: downloadData_def demo_worker_simps)
  from C9_downloadData_index [where L = demo_lib and p = demo_pipeline and oc = "demo_outcomes RunOk"
      and data = "Data demo_request2" and w = demo_world] h2 h3
  have g: "fst (downloadData demo_lib demo_pipeline (demo_outcomes RunOk) (Data demo_request2) demo_world)
       = Some (Panic ''index out of range'')"
    by blast
  from C9_downloadData_index [where L = demo_lib and p = demo_pipeline and oc = "demo_outcomes RunOk"
      and data = "Data demo_request" and w = demo_world] h1
  have "\<forall>msg. fst (downloadData demo_lib demo_pipeline (demo_outcomes RunOk) (Data demo_request) demo_world)
          \<noteq> Some (Panic msg)"
    by blast
  with h1 h2 v g show ?thesis by simp
qed

lemma run_deferred_fst [simp]: "fst (run_deferred x) = fst x"
  by (cases x) (simp add: run_deferred_def split: sum.splits fault.splits)

lemma run_deferred_tags [simp]: "tags (snd (run_deferred x)) = tags (snd x)"
  by (cases x) (simp add: run_deferred_def split: sum.splits fault.splits)

lemma run_deferred_returns:
  "run_deferred (Inr resp, w) = (Inr resp, emit EvLog (emit EvUnlock w))"
  by (simp add: run_deferred_def)

lemma Process_body_hit:
  assumes "HashDatum L (Data req) p = Inr tag" and "GetTag oc tag w = None"
  shows "Process_body L p oc req w
           = (Inr \<lparr>Tag = tag\<rparr>, emit (EvGetTag tag) (emit EvHashDatum (emit EvLock w)))"
  using assms by (simp add: Process_body_def Let_def)

lemma Process_body_miss:
  assumes "HashDatum L (Data req) p = Inr tag" and "GetTag oc tag w \<noteq> None"
  shows "Process_body L p oc req w =
     (case downloadData L p oc (Data req) (emit (EvGetTag tag) (emit EvHashDatum (emit EvLock w))) of
        (Some err, w3) \<Rightarrow> (Inl err, w3)
      | (None, w3) \<Rightarrow>
         (case runUserCode L p oc w3 of
            (Some err, w4) \<Rightarrow> (Inl err, w4)
          | (None, w4) \<Rightarrow>
             (case uploadOutput L oc tag w4 of
                (Some err, w5) \<Rightarrow> (Inl err, w5)
              | (None, w5) \<Rightarrow> (Inr \<lparr>Tag = tag\<rparr>, w5))))"
  using assms by (auto simp: Process_body_def Let_def)

lemma downloadData_tags [simp]: "tags (snd (downloadData L p oc data w)) = tags w"
  using downloadData_from_extends [of w L p oc 0 data] by (simp add: downloadData_def extends_def)

lemma runUserCode_tags [simp]: "tags (snd (runUserCode L p oc w)) = tags w"
  using runUserCode_extends [of w L p oc] by (simp add: extends_def)

lemma Process_body_ok_tag:
  assumes "Process_body L p oc req w = (Inr resp, w1)"
  shows "HashDatum L (Data req) p = Inr (Tag resp) \<and> tags w1 (Tag resp) \<noteq> None"
proof (cases "HashDatum L (Data req) p")
  case (Inl err)
  with assms show ?thesis by (simp add: Process_body_def Let_def)
next
  case (Inr tag)
  show ?thesis
  proof (cases "GetTag oc tag w")
    case None
    then have "tags w tag \<noteq> None" by (auto simp: GetTag_def split: option.splits)
    with assms Process_body_hit [OF Inr None] Inr show ?thesis by auto
  next
    case (Some e)
    then have miss: "GetTag oc tag w \<noteq> None" by simp
    let ?w2 = "emit (EvGetTag tag) (emit EvHashDatum (emit EvLock w))"
    obtain rd w3 where d: "downloadData L p oc (Data req) ?w2 = (rd, w3)" by (cases "downloadData L p oc (Data req) ?w2")
    obtain rr w4 where r: "runUserCode L p oc w3 = (rr, w4)" by (cases "runUserCode L p oc w3")
    obtain ru w5 where u: "uploadOutput L oc tag w4 = (ru, w5)" by (cases "uploadOutput L oc tag w4")
    from assms Process_body_miss [OF Inr miss] d r u
    have ok: "rd = None" "rr = None" "ru = None" "resp = \<lparr>Tag = tag\<rparr>" "w1 = w5"
      by (auto split: option.splits)
    from uploadOutput_ok_tags [of L oc tag w4] u ok
    have "tags w5 tag \<noteq> None" by auto
    with ok Inr show ?thesis by simp
  qed
qed

text \<open>
  Claim C2. When the computed tag has an object in the store and \<^verbatim>\<open>GetTag\<close> succeeds,
  \<^verbatim>\<open>Process\<close> returns the tag and does nothing but lock, hash, probe, unlock and log:
  nothing is pulled, the user binary is not run, nothing is uploaded, and the store is as
  before. Hence after a call that returned a tag, a second call with the same data and
  pipeline (whose probe is not cut by a transport failure) returns the same tag without
  running the user binary.
\<close>

theorem C2_cache_hit:
  "(HashDatum L (Data req) p = Inr tag \<and> GetTag oc tag w = None \<longrightarrow>
      Process L p oc req w
        = (Inr \<lparr>Tag = tag\<rparr>,
           w\<lparr>events := events w @ [EvLock, EvHashDatum, EvGetTag tag, EvUnlock, EvLog]\<rparr>))
   \<and> (Process L p oc1 req w = (Inr resp, w1) \<and> getTag_err oc2 (Tag resp) = None \<longrightarrow>
      Process L p oc2 req w1
        = (Inr resp,
           w1\<lparr>events := events w1 @ [EvLock, EvHashDatum, EvGetTag (Tag resp), EvUnlock, EvLog]\<rparr>))"
proof (intro conjI impI)
  assume "HashDatum L (Data req) p = Inr tag \<and> GetTag oc tag w = None"
  then show "Process L p oc req w
        = (Inr \<lparr>Tag = tag\<rparr>,
           w\<lparr>events := events w @ [EvLock, EvHashDatum, EvGetTag tag, EvUnlock, EvLog]\<rparr>)"
    by (simp add: Process_def Process_body_hit run_deferred_returns emit_def)
next
  assume a: "Process L p oc1 req w = (Inr resp, w1) \<and> getTag_err oc2 (Tag resp) = None"
  obtain rb wb where b: "Process_body L p oc1 req w = (rb, wb)" by (cases "Process_body L p oc1 req w")
  with a have rb: "rb = Inr resp"
    by (auto simp: Process_def run_deferred_def split: sum.splits fault.splits)
  with a b have w1: "w1 = emit EvLog (emit EvUnlock wb)"
    by (simp add: Process_def run_deferred_def)
  from Process_body_ok_tag [of L p oc1 req w resp wb] b rb
  have h: "HashDatum L (Data req) p = Inr (Tag resp)" and t: "tags wb (Tag resp) \<noteq> None"
    by simp_all
  from t w1 a have g: "GetTag oc2 (Tag resp) w1 = None"
    by (auto simp: GetTag_def)
  show "Process L p oc2 req w1
        = (Inr resp,
           w1\<lparr>events := events w1 @ [EvLock, EvHashDatum, EvGetTag (Tag resp), EvUnlock, EvLog]\<rparr>)"
    by (simp add: Process_def Process_body_hit [OF h g] run_deferred_returns emit_def)
qed

theorem C2_witness:
  "HashDatum demo_lib (Data demo_request) demo_pipeline = Inr ''h1:false''
   \<and> GetTag (demo_outcomes RunOk) ''h1:false'' (demo_world\<lparr>tags := [''h1:false'' \<mapsto> ''treeBytes'']\<rparr>) = None
   \<and> Process demo_lib demo_pipeline (demo_outcomes RunOk) demo_request
        (demo_world\<lparr>tags := [''h1:false'' \<mapsto> ''treeBytes'']\<rparr>)
      = (Inr \<lparr>Tag = ''h1:false''\<rparr>,
         \<lparr> tags = [''h1:false'' \<mapsto> ''treeBytes''], blocks = [],
           events = [EvLock, EvHashDatum, EvGetTag ''h1:false'', EvUnlock, EvLog] \<rparr>)
   \<and> fst (Process demo_lib demo_pipeline (demo_outcomes RunOk) demo_request demo_world)
      = Inr \<lparr>Tag = ''h1:false''\<rparr>
   \<and> fst (Process demo_lib demo_pipeline (demo_outcomes RunOk) demo_request
             (snd (Process demo_lib demo_pipeline (demo_outcomes RunOk) demo_request demo_world)))
      = Inr \<lparr>Tag = ''h1:false''\<rparr>
   \<and> events (snd (Process demo_lib demo_pipeline (demo_outcomes RunOk) demo_request
             (snd (Process demo_lib demo_pipeline (demo_outcomes RunOk) demo_request demo_world))))
      = events (snd (Process demo_lib demo_pipeline (demo_outcomes RunOk) demo_request demo_world))
          @ [EvLock, EvHashDatum, EvGetTag ''h1:false'', EvUnlock, EvLog]"
proof -
  let ?w = "demo_world\<lparr>tags := [''h1:false'' \<mapsto> ''treeBytes'']\<rparr>"
  let ?oc = "demo_outcomes RunOk"
  have h1: "HashDatum demo_lib (Data demo_request) demo_pipeline = Inr ''h1:false''"
    by (simp add: demo_lib_def demo_request_def demo_pipeline_def)
  have h2: "GetTag ?oc ''h1:false'' ?w = None"
    by (simp add: GetTag_def demo_worker_simps)
  from C2_cache_hit [where L = demo_lib and p = demo_pipeline and oc = ?oc and req = demo_request
      and w = ?w and tag = "''h1:false''"] h1 h2
  have g1: "Process demo_lib demo_pipeline ?oc demo_request ?w
      = (Inr \<lparr>Tag = ''h1:false''\<rparr>,
         \<lparr> tags = [''h1:false'' \<mapsto> ''treeBytes''], blocks = [],
           events = [EvLock, EvHashDatum, EvGetTag ''h1:false'', EvUnlock, EvLog] \<rparr>)"
    by (simp add: demo_world_def)
  obtain w1 where first: "Process demo_lib demo_pipeline ?oc demo_request demo_world
                            = (Inr \<lparr>Tag = ''h1:false''\<rparr>, w1)"
    by (simp add: Process_def Process_body_def run_deferred_def GetTag_def downloadData_def runUserCode_def
      uploadOutput_def upload_entry_def emit_def demo_lib_def demo_pipeline_def demo_outcomes_def
      demo_request_def demo_world_def Let_def)
  have h3: "getTag_err ?oc (Tag \<lparr>Tag = ''h1:false''\<rparr>) = None"
    by (simp add: demo_worker_simps)
  from C2_cache_hit [where L = demo_lib and p = demo_pipeline and ?oc1.0 = ?oc and ?oc2.0 = ?oc
      and req = demo_request and w = demo_world and resp = "\<lparr>Tag = ''h1:false''\<rparr>" and ?w1.0 = w1] first h3
  have g2: "Process demo_lib demo_pipeline ?oc demo_request w1
        = (Inr \<lparr>Tag = ''h1:false''\<rparr>,
           w1\<lparr>events := events w1 @ [EvLock, EvHashDatum, EvGetTag ''h1:false'', EvUnlock, EvLog]\<rparr>)"
    by simp
  show ?thesis using h1 h2 g1 first g2 by simp
qed

lemmas demo_unfold = Process_def Process_body_def run_deferred_def GetTag_def downloadData_def
  runUserCode_def uploadOutput_def upload_entry_def emit_def demo_lib_def demo_pipeline_def
  demo_pipeline_accept3_def demo_outcomes_def demo_request_def demo_world_def Let_def

lemma runUserCode_returns_nil:
  "mkdirAll oc = None \<Longrightarrow> Cmd (Transform p) \<noteq> [] \<Longrightarrow> fst (runUserCode L p oc w) = None"
  by (auto simp: runUserCode_def Let_def split: list.splits run_result.splits)

text \<open>
  Claim C1, evaluated for the command \<^verbatim>\<open>false\<close> with no accepted return code, once with
  the binary exiting with code 1 and once with the binary killed by signal 9:
  \<^verbatim>\<open>Process\<close> returns the tag with no error, and the object store holds the serialized
  tree under the tag afterwards.
\<close>

theorem C1_failed_run_returns_tag:
  "fst (Process demo_lib demo_pipeline (demo_outcomes (ExitError (Exited 1))) demo_request demo_world)
     = Inr \<lparr>Tag = ''h1:false''\<rparr>
   \<and> tags (snd (Process demo_lib demo_pipeline (demo_outcomes (ExitError (Exited 1))) demo_request demo_world))
        ''h1:false'' = Some ''a.txt;''
   \<and> fst (Process demo_lib demo_pipeline (demo_outcomes (ExitError (Signaled 9))) demo_request demo_world)
     = Inr \<lparr>Tag = ''h1:false''\<rparr>
   \<and> tags (snd (Process demo_lib demo_pipeline (demo_outcomes (ExitError (Signaled 9))) demo_request demo_world))
        ''h1:false'' = Some ''a.txt;''"
  by (simp add: demo_unfold)

lemma uploadOutput_order:
  assumes "EvPutObject tag \<in> set (drop (length (events w)) (events (snd (uploadOutput L oc tag w))))"
  shows "\<exists>t w1 evs.
           upload_all L oc (walk oc) None (NewHashTree L, emit (EvWalk (PPSOutputPath L)) w) = (None, t, w1)
         \<and> events w1 = events w @ EvWalk (PPSOutputPath L) # evs \<and> list_all transfer_event evs
         \<and> events (snd (uploadOutput L oc tag w)) = events w1 @ [EvFinish, EvSerialize, EvPutObject tag]"
proof -
  let ?w0 = "emit (EvWalk (PPSOutputPath L)) w"
  obtain r t w1 where up: "upload_all L oc (walk oc) None (NewHashTree L, ?w0) = (r, t, w1)"
    by (metis prod_cases3)
  have "extends transfer_event ?w0 w1"
    using upload_all_extends [of ?w0 L oc "walk oc" None "NewHashTree L"] up by simp
  then obtain evs where evs: "events w1 = events w @ EvWalk (PPSOutputPath L) # evs"
    and tr: "list_all transfer_event evs"
    by (auto simp: extends_def)
  have no: "EvPutObject tag \<notin> set evs"
    using tr by (auto simp: list_all_iff)
  from assms up evs no have "r = None
      \<and> events (snd (uploadOutput L oc tag w)) = events w1 @ [EvFinish, EvSerialize, EvPutObject tag]"
    by (auto simp: uploadOutput_def Let_def split: option.splits sum.splits)
  with up evs tr show ?thesis by blast
qed

text \<open>
  Claim C5. On a cache miss, an error of the download step, of the user-code step or of
  the upload step is the error \<^verbatim>\<open>Process\<close> returns, and the tags of the object store are
  what they were before the call. In \<^verbatim>\<open>uploadOutput\<close>, \<^verbatim>\<open>PutObject\<close> is called only when
  every goroutine of the walk has finished with no error; it is then the last call,
  straight after \<^verbatim>\<open>Finish\<close> and \<^verbatim>\<open>Serialize\<close>.
\<close>

theorem C5_step_errors:
  assumes hash: "HashDatum L (Data req) p = Inr tag" and miss: "GetTag oc tag w \<noteq> None"
  shows "(fst (downloadData L p oc (Data req) (emit (EvGetTag tag) (emit EvHashDatum (emit EvLock w)))) = Some e
            \<longrightarrow> fst (Process L p oc req w) = Inl e \<and> tags (snd (Process L p oc req w)) = tags w)
   \<and> (downloadData L p oc (Data req) (emit (EvGetTag tag) (emit EvHashDatum (emit EvLock w))) = (None, w3)
        \<and> fst (runUserCode L p oc w3) = Some e
            \<longrightarrow> fst (Process L p oc req w) = Inl e \<and> tags (snd (Process L p oc req w)) = tags w)
   \<and> (downloadData L p oc (Data req) (emit (EvGetTag tag) (emit EvHashDatum (emit EvLock w))) = (None, w3)
        \<and> runUserCode L p oc w3 = (None, w4)
        \<and> fst (uploadOutput L oc tag w4) = Some e
            \<longrightarrow> fst (Process L p oc req w) = Inl e \<and> tags (snd (Process L p oc req w)) = tags w)
   \<and> (EvPutObject tag \<in> set (drop (length (events w')) (events (snd (uploadOutput L oc tag w'))))
        \<longrightarrow> (\<exists>t w1 evs.
              upload_all L oc (walk oc) None (NewHashTree L, emit (EvWalk (PPSOutputPath L)) w') = (None, t, w1)
            \<and> events w1 = events w' @ EvWalk (PPSOutputPath L) # evs \<and> list_all transfer_event evs
            \<and> events (snd (uploadOutput L oc tag w')) = events w1 @ [EvFinish, EvSerialize, EvPutObject tag]))"
proof (intro conjI impI)
  let ?w2 = "emit (EvGetTag tag) (emit EvHashDatum (emit EvLock w))"
  note body = Process_body_miss [OF hash miss]
  have t2: "tags ?w2 = tags w" by simp
  {
    assume a: "fst (downloadData L p oc (Data req) ?w2) = Some e"
    obtain w3' where d: "downloadData L p oc (Data req) ?w2 = (Some e, w3')"
      using a by (cases "downloadData L p oc (Data req) ?w2") auto
    have "tags w3' = tags w"
      using downloadData_tags [of L p oc "Data req" ?w2] d by simp
    with d body show "fst (Process L p oc req w) = Inl e" "tags (snd (Process L p oc req w)) = tags w"
      by (simp_all add: Process_def)
  }
  {
    assume a: "downloadData L p oc (Data req) ?w2 = (None, w3) \<and> fst (runUserCode L p oc w3) = Some e"
    then have d: "downloadData L p oc (Data req) ?w2 = (None, w3)" by simp
    obtain w4' where r: "runUserCode L p oc w3 = (Some e, w4')"
      using a by (cases "runUserCode L p oc w3") auto
    have "tags w3 = tags w"
      using downloadData_tags [of L p oc "Data req" ?w2] d by simp
    moreover have "tags w4' = tags w3"
      using runUserCode_tags [of L p oc w3] r by simp
    ultimately show "fst (Process L p oc req w) = Inl e" "tags (snd (Process L p oc req w)) = tags w"
      using d r body by (simp_all add: Process_def)
  }
  {
    assume a: "downloadData L p oc (Data req) ?w2 = (None, w3) \<and> runUserCode L p oc w3 = (None, w4)
        \<and> fst (uploadOutput L oc tag w4) = Some e"
    then have d: "downloadData L p oc (Data req) ?w2 = (None, w3)"
      and r: "runUserCode L p oc w3 = (None, w4)" by simp_all
    obtain w5 where u: "uploadOutput L oc tag w4 = (Some e, w5)"
      using a by (cases "uploadOutput L oc tag w4") auto
    have "tags w3 = tags w"
      using downloadData_tags [of L p oc "Data req" ?w2] d by simp
    moreover have "tags w4 = tags w3"
      using runUserCode_tags [of L p oc w3] r by simp
    moreover have "tags w5 = tags w4"
      using uploadOutput_error_tags [of L oc tag w4 e] u by simp
    ultimately show "fst (Process L p oc req w) = Inl e" "tags (snd (Process L p oc req w)) = tags w"
      using d r u body by (simp_all add: Process_def)
  }
  {
    assume "EvPutObject tag \<in> set (drop (length (events w')) (events (snd (uploadOutput L oc tag w'))))"
    from uploadOutput_order [OF this]
    show "\<exists>t w1 evs.
              upload_all L oc (walk oc) None (NewHashTree L, emit (EvWalk (PPSOutputPath L)) w') = (None, t, w1)
            \<and> events w1 = events w' @ EvWalk (PPSOutputPath L) # evs \<and> list_all transfer_event evs
            \<and> events (snd (uploadOutput L oc tag w')) = events w1 @ [EvFinish, EvSerialize, EvPutObject tag]" .
  }
qed

theorem C5_witness:
  "HashDatum demo_lib (Data demo_request) demo_pipeline = Inr ''h1:false''
   \<and> GetTag (demo_outcomes RunOk) ''h1:false'' demo_world \<noteq> None
   \<and> Process demo_lib demo_pipeline ((demo_outcomes RunOk)\<lparr>pull := (\<lambda>path datum lazy. Some ''pull failed'')\<rparr>)
        demo_request demo_world
      = (Inl (Error ''pull failed''),
         demo_world\<lparr>events := [EvLock, EvHashDatum, EvGetTag ''h1:false'',
            EvPull ''/pfs/in'' \<lparr> f_path = ''x'', f_hash = ''h1'' \<rparr> False, EvUnlock, EvLog]\<rparr>)
   \<and> fst (Process demo_lib demo_pipeline ((demo_outcomes RunOk)\<lparr>mkdirAll := Some ''mkdir failed''\<rparr>)
        demo_request demo_world) = Inl (Error ''mkdir failed'')
   \<and> tags (snd (Process demo_lib demo_pipeline ((demo_outcomes RunOk)\<lparr>mkdirAll := Some ''mkdir failed''\<rparr>)
        demo_request demo_world)) = tags demo_world
   \<and> fst (Process demo_lib demo_pipeline ((demo_outcomes RunOk)\<lparr>putBlock := (\<lambda>path. Inl ''put failed'')\<rparr>)
        demo_request demo_world) = Inl (Error ''put failed'')
   \<and> tags (snd (Process demo_lib demo_pipeline ((demo_outcomes RunOk)\<lparr>putBlock := (\<lambda>path. Inl ''put failed'')\<rparr>)
        demo_request demo_world)) = tags demo_world
   \<and> events (snd (uploadOutput demo_lib (demo_outcomes RunOk) ''h1:false'' demo_world))
      = [EvWalk ''/pfs/out'', EvOpen ''/pfs/out/a.txt'', EvPutBlock ''/pfs/out/a.txt'', EvPutFile ''a.txt'',
         EvClose ''/pfs/out/a.txt'', EvFinish, EvSerialize, EvPutObject ''h1:false'']"
proof -
  let ?w2 = "emit (EvGetTag ''h1:false'') (emit EvHashDatum (emit EvLock demo_world))"
  let ?od = "(demo_outcomes RunOk)\<lparr>pull := (\<lambda>path datum lazy. Some ''pull failed'')\<rparr>"
  let ?or = "(demo_outcomes RunOk)\<lparr>mkdirAll := Some ''mkdir failed''\<rparr>"
  let ?ou = "(demo_outcomes RunOk)\<lparr>putBlock := (\<lambda>path. Inl ''put failed'')\<rparr>"
  let ?w3 = "emit (EvPull ''/pfs/in'' \<lparr> f_path = ''x'', f_hash = ''h1'' \<rparr> False) ?w2"
  let ?w4 = "emit (EvRun [''false''] [CHR 0x0A]) (emit (EvMkdirAll ''/pfs/out'') ?w3)"
  have h1: "HashDatum demo_lib (Data demo_request) demo_pipeline = Inr ''h1:false''"
    by (simp add: demo_lib_def demo_request_def demo_pipeline_def)
  have h2: "GetTag (demo_outcomes RunOk) ''h1:false'' demo_world \<noteq> None"
    "GetTag ?od ''h1:false'' demo_world \<noteq> None"
    "GetTag ?or ''h1:false'' demo_world \<noteq> None"
    "GetTag ?ou ''h1:false'' demo_world \<noteq> None"
    by (simp_all add: GetTag_def demo_outcomes_def demo_world_def)
  have d1: "fst (downloadData demo_lib demo_pipeline ?od (Data demo_request) ?w2) = Some (Error ''pull failed'')"
    by (simp add: demo_unfold)
  have d2: "downloadData demo_lib demo_pipeline ?or (Data demo_request) ?w2 = (None, ?w3)"
    "downloadData demo_lib demo_pipeline ?ou (Data demo_request) ?w2 = (None, ?w3)"
    by (simp_all add: demo_unfold)
  have r1: "fst (runUserCode demo_lib demo_pipeline ?or ?w3) = Some (Error ''mkdir failed'')"
    by (simp add: demo_unfold)
  have r2: "runUserCode demo_lib demo_pipeline ?ou ?w3 = (None, ?w4)"
    by (simp add: demo_unfold)
  have u1: "fst (uploadOutput demo_lib ?ou ''h1:false'' ?w4) = Some (Error ''put failed'')"
    by (simp add: demo_unfold)
  have u2: "events (snd (uploadOutput demo_lib (demo_outcomes RunOk) ''h1:false'' demo_world))
      = [EvWalk ''/pfs/out'', EvOpen ''/pfs/out/a.txt'', EvPutBlock ''/pfs/out/a.txt'', EvPutFile ''a.txt'',
         EvClose ''/pfs/out/a.txt'', EvFinish, EvSerialize, EvPutObject ''h1:false'']"
    by (simp add: demo_unfold)
  have ev: "Process demo_lib demo_pipeline ?od demo_request demo_world
      = (Inl (Error ''pull failed''),
         demo_world\<lparr>events := [EvLock, EvHashDatum, EvGetTag ''h1:false'',
            EvPull ''/pfs/in'' \<lparr> f_path = ''x'', f_hash = ''h1'' \<rparr> False, EvUnlock, EvLog]\<rparr>)"
    by (simp add: demo_unfold)
  from C5_step_errors [OF h1 h2(2), where e = "Error ''pull failed''"] d1
  have g1: "fst (Process demo_lib demo_pipeline ?od demo_request demo_world) = Inl (Error ''pull failed'')"
    by blast
  from C5_step_errors [OF h1 h2(3), where e = "Error ''mkdir failed''" and ?w3.0 = ?w3] d2(1) r1
  have g2: "fst (Process demo_lib demo_pipeline ?or demo_request demo_world) = Inl (Error ''mkdir failed'')
      \<and> tags (snd (Process demo_lib demo_pipeline ?or demo_request demo_world)) = tags demo_world"
    by blast
  from C5_step_errors [OF h1 h2(4), where e = "Error ''put failed''" and ?w3.0 = ?w3 and ?w4.0 = ?w4] d2(2) r2 u1
  have g3: "fst (Process demo_lib demo_pipeline ?ou demo_request demo_world) = Inl (Error ''put failed'')
      \<and> tags (snd (Process demo_lib demo_pipeline ?ou demo_request demo_world)) = tags demo_world"
    by blast
  show ?thesis using h1 h2(1) ev g1 g2 g3 u2 by simp
qed

lemma accept_loop_iff:
  "accept_loop rcs status success = (success \<or> (\<exists>returnCode \<in> set rcs. sint returnCode = status))"
  by (induction rcs arbitrary: success) auto

text \<open>
  Claim C6. When the user binary exits with a non-zero code that is in
  \<^verbatim>\<open>AcceptReturnCode\<close>, \<^verbatim>\<open>runUserCode\<close> returns nil and writes no failure message,
  \<^verbatim>\<open>Process\<close> goes on to \<^verbatim>\<open>uploadOutput\<close> and returns what the upload decides: when the
  upload succeeds, the tag, with the output recorded under it.
\<close>

theorem C6_accepted_exit_code:
  assumes "HashDatum L (Data req) p = Inr tag"
    and "GetTag oc tag w \<noteq> None"
    and "downloadData L p oc (Data req) (emit (EvGetTag tag) (emit EvHashDatum (emit EvLock w))) = (None, w3)"
    and "mkdirAll oc = None"
    and "Cmd (Transform p) \<noteq> []"
    and "run oc = ExitError (Exited n)"
    and "n \<noteq> 0"
    and "returnCode \<in> set (AcceptReturnCode (Transform p))"
    and "sint returnCode = int n"
  shows "runUserCode L p oc w3
           = (None, w3\<lparr>events := events w3 @
                [EvMkdirAll (PPSOutputPath L),
                 EvRun (Cmd (Transform p)) (strings_Join (Stdin (Transform p)) [CHR 0x0A] @ [CHR 0x0A])]\<rparr>)
   \<and> Process L p oc req w
       = run_deferred
          (case uploadOutput L oc tag (snd (runUserCode L p oc w3)) of
             (Some err, w5) \<Rightarrow> (Inl err, w5)
           | (None, w5) \<Rightarrow> (Inr \<lparr>Tag = tag\<rparr>, w5))
   \<and> (fst (uploadOutput L oc tag (snd (runUserCode L p oc w3))) = None \<longrightarrow>
        fst (Process L p oc req w) = Inr \<lparr>Tag = tag\<rparr>
        \<and> tags (snd (Process L p oc req w)) tag \<noteq> None)"
proof -
  have acc: "accept_loop (AcceptReturnCode (Transform p)) (ExitStatus (Exited n)) False"
    using assms(8,9) by (auto simp: accept_loop_iff)
  obtain name args where cmd: "Cmd (Transform p) = name # args"
    using assms(5) by (cases "Cmd (Transform p)") auto
  have run: "runUserCode L p oc w3
           = (None, w3\<lparr>events := events w3 @
                [EvMkdirAll (PPSOutputPath L),
                 EvRun (Cmd (Transform p)) (strings_Join (Stdin (Transform p)) [CHR 0x0A] @ [CHR 0x0A])]\<rparr>)"
    using assms(4,6) acc cmd by (simp add: runUserCode_def Let_def emit_def)
  obtain w4 where r: "runUserCode L p oc w3 = (None, w4)" using run by simp
  have body: "Process L p oc req w
       = run_deferred
          (case uploadOutput L oc tag (snd (runUserCode L p oc w3)) of
             (Some err, w5) \<Rightarrow> (Inl err, w5)
           | (None, w5) \<Rightarrow> (Inr \<lparr>Tag = tag\<rparr>, w5))"
    using Process_body_miss [OF assms(1,2)] assms(3) r by (simp add: Process_def)
  have "fst (Process L p oc req w) = Inr \<lparr>Tag = tag\<rparr> \<and> tags (snd (Process L p oc req w)) tag \<noteq> None"
    if ok: "fst (uploadOutput L oc tag (snd (runUserCode L p oc w3))) = None"
  proof -
    obtain w5 where u: "uploadOutput L oc tag (snd (runUserCode L p oc w3)) = (None, w5)"
      using ok by (cases "uploadOutput L oc tag (snd (runUserCode L p oc w3))") auto
    from uploadOutput_ok_tags [OF ok] u have "tags w5 tag \<noteq> None" by auto
    with u body show ?thesis by simp
  qed
  with run body show ?thesis by blast
qed

theorem C6_witness:
  "HashDatum demo_lib (Data demo_request) demo_pipeline_accept3 = Inr ''h1:sh-cexit 3''
   \<and> GetTag (demo_outcomes (ExitError (Exited 3))) ''h1:sh-cexit 3'' demo_world \<noteq> None
   \<and> mkdirAll (demo_outcomes (ExitError (Exited 3))) = None
   \<and> Cmd (Transform demo_pipeline_accept3) \<noteq> []
   \<and> run (demo_outcomes (ExitError (Exited 3))) = ExitError (Exited 3)
   \<and> (3::64 word) \<in> set (AcceptReturnCode (Transform demo_pipeline_accept3))
   \<and> sint (3::64 word) = int 3
   \<and> fst (Process demo_lib demo_pipeline_accept3 (demo_outcomes (ExitError (Exited 3))) demo_request demo_world)
       = Inr \<lparr>Tag = ''h1:sh-cexit 3''\<rparr>
   \<and> tags (snd (Process demo_lib demo_pipeline_accept3 (demo_outcomes (ExitError (Exited 3)))
                   demo_request demo_world)) ''h1:sh-cexit 3'' \<noteq> None"
proof -
  let ?oc = "demo_outcomes (ExitError (Exited 3))"
  let ?tag = "''h1:sh-cexit 3''"
  let ?w2 = "emit (EvGetTag ?tag) (emit EvHashDatum (emit EvLock demo_world))"
  let ?w3 = "emit (EvPull ''/pfs/in'' \<lparr> f_path = ''x'', f_hash = ''h1'' \<rparr> False) ?w2"
  have h1: "HashDatum demo_lib (Data demo_request) demo_pipeline_accept3 = Inr ?tag"
    by (simp add: demo_lib_def demo_request_def demo_pipeline_accept3_def)
  have h2: "GetTag ?oc ?tag demo_world \<noteq> None"
    by (simp add: GetTag_def demo_outcomes_def demo_world_def)
  have h3: "downloadData demo_lib demo_pipeline_accept3 ?oc (Data demo_request) ?w2 = (None, ?w3)"
    by (simp add: demo_unfold)
  have h4: "mkdirAll ?oc = None" and h6: "run ?oc = ExitError (Exited 3)"
    by (simp_all add: demo_outcomes_def)
  have h5: "Cmd (Transform demo_pipeline_accept3) \<noteq> []"
    and h8: "(3::64 word) \<in> set (AcceptReturnCode (Transform demo_pipeline_accept3))"
    by (simp_all add: demo_pipeline_accept3_def)
  have h7: "(3::nat) \<noteq> 0" by simp
  have h9: "sint (3::64 word) = int 3" by simp
  have u: "fst (uploadOutput demo_lib ?oc ?tag (snd (runUserCode demo_lib demo_pipeline_accept3 ?oc ?w3))) = None"
    by (simp add: demo_unfold)
  from C6_accepted_exit_code [OF h1 h2 h3 h4 h5 h6 h7 h8 h9] u
  have "fst (Process demo_lib demo_pipeline_accept3 ?oc demo_request demo_world) = Inr \<lparr>Tag = ?tag\<rparr>
      \<and> tags (snd (Process demo_lib demo_pipeline_accept3 ?oc demo_request demo_world)) ?tag \<noteq> None"
    by blast
  with h1 h2 h4 h5 h6 h8 h9 show ?thesis by simp
qed

lemma extends_events:
  "extends P w w' \<Longrightarrow> \<exists>evs. events w' = events w @ evs \<and> list_all P evs"
  by (simp add: extends_def)

lemma uploadOutput_events:
  "\<exists>evs. events (snd (uploadOutput L oc tag w)) = events w @ evs \<and> list_all (\<lambda>e. \<not> lock_event e) evs"
proof -
  let ?w0 = "emit (EvWalk (PPSOutputPath L)) w"
  obtain r t w1 where up: "upload_all L oc (walk oc) None (NewHashTree L, ?w0) = (r, t, w1)"
    by (metis prod_cases3)
  have "extends transfer_event ?w0 w1"
    using upload_all_extends [of ?w0 L oc "walk oc" None "NewHashTree L"] up by simp
  then obtain evs where evs: "events w1 = events w @ EvWalk (PPSOutputPath L) # evs"
    and tr: "list_all transfer_event evs"
    by (auto simp: extends_def)
  from tr have nl: "list_all (\<lambda>e. \<not> lock_event e) evs"
    by (auto simp: list_all_iff dest: transfer_not_lock)
  define new where "new = drop (length (events w)) (events (snd (uploadOutput L oc tag w)))"
  have "events (snd (uploadOutput L oc tag w)) = events w @ new
        \<and> (new = EvWalk (PPSOutputPath L) # evs
           \<or> new = EvWalk (PPSOutputPath L) # evs @ [EvFinish]
           \<or> new = EvWalk (PPSOutputPath L) # evs @ [EvFinish, EvSerialize]
           \<or> new = EvWalk (PPSOutputPath L) # evs @ [EvFinish, EvSerialize, EvPutObject tag])"
    unfolding new_def using up evs
    by (auto simp: uploadOutput_def Let_def split: option.splits sum.splits)
  with nl show ?thesis by (intro exI [of _ new]) auto
qed

lemma Process_body_events:
  "\<exists>rest. events (snd (Process_body L p oc req w)) = events w @ EvLock # EvHashDatum # rest
      \<and> list_all (\<lambda>e. \<not> lock_event e) rest
      \<and> (\<forall>tag. HashDatum L (Data req) p = Inr tag \<longrightarrow> (\<exists>rest'. rest = EvGetTag tag # rest'))"
proof (cases "HashDatum L (Data req) p")
  case (Inl err)
  then show ?thesis by (simp add: Process_body_def Let_def)
next
  case (Inr tag)
  show ?thesis
  proof (cases "GetTag oc tag w")
    case None
    from Process_body_hit [OF Inr None] Inr show ?thesis by simp
  next
    case (Some e)
    then have miss: "GetTag oc tag w \<noteq> None" by simp
    let ?w2 = "emit (EvGetTag tag) (emit EvHashDatum (emit EvLock w))"
    obtain rd w3 where d: "downloadData L p oc (Data req) ?w2 = (rd, w3)"
      by (cases "downloadData L p oc (Data req) ?w2")
    obtain rr w4 where r: "runUserCode L p oc w3 = (rr, w4)" by (cases "runUserCode L p oc w3")
    obtain ru w5 where u: "uploadOutput L oc tag w4 = (ru, w5)" by (cases "uploadOutput L oc tag w4")
    obtain e3 where e3: "events w3 = events ?w2 @ e3" "list_all (\<lambda>e. \<not> lock_event e) e3"
      using extends_events [OF downloadData_from_extends [of ?w2 L p oc 0 "Data req"]] d
      by (auto simp: downloadData_def)
    obtain e4 where e4: "events w4 = events w3 @ e4" "list_all (\<lambda>e. \<not> lock_event e) e4"
      using extends_events [OF runUserCode_extends [of w3 L p oc]] r by auto
    obtain e5 where e5: "events w5 = events w4 @ e5" "list_all (\<lambda>e. \<not> lock_event e) e5"
      using uploadOutput_events [of L oc tag w4] u by auto
    have "snd (Process_body L p oc req w) = w3 \<or> snd (Process_body L p oc req w) = w4
          \<or> snd (Process_body L p oc req w) = w5"
      using Process_body_miss [OF Inr miss] d r u by (auto split: option.splits)
    then show ?thesis
    proof (elim disjE)
      assume "snd (Process_body L p oc req w) = w3"
      with e3 Inr show ?thesis by simp
    next
      assume "snd (Process_body L p oc req w) = w4"
      with e3 e4 Inr show ?thesis by simp
    next
      assume "snd (Process_body L p oc req w) = w5"
      with e3 e4 e5 Inr show ?thesis by simp
    qed
  qed
qed

lemma not_lock_event_set:
  "list_all (\<lambda>e. \<not> lock_event e) evs \<Longrightarrow> EvLock \<notin> set evs \<and> EvUnlock \<notin> set evs \<and> EvLog \<notin> set evs"
  by (auto simp: list_all_iff)

text \<open>
  Claim C8 as stated: the fingerprint and the cache probe would happen before the mutex
  is taken. In the run below neither does.
\<close>

theorem C8_counterexample:
  "\<not> (happens_before EvHashDatum EvLock
         (events (snd (Process demo_lib demo_pipeline (demo_outcomes RunOk) demo_request demo_world)))
      \<and> happens_before (EvGetTag ''h1:false'') EvLock
         (events (snd (Process demo_lib demo_pipeline (demo_outcomes RunOk) demo_request demo_world))))"
  by (simp add: happens_before_def demo_unfold)

text \<open>
  Claim C8, amended. \<^verbatim>\<open>Process\<close> takes the mutex first: the fingerprint computation and
  the cache probe come after \<^verbatim>\<open>Lock\<close>, the mutex is not taken again, and, unless the
  process has ended in a goroutine's panic, the run ends with the deferred \<^verbatim>\<open>Unlock\<close>
  and the log, with no \<^verbatim>\<open>Unlock\<close> before.
\<close>

theorem C8_lock_held_throughout:
  "\<exists>rest. events (snd (Process L p oc req w)) = events w @ EvLock # EvHashDatum # rest
     \<and> EvLock \<notin> set rest
     \<and> happens_before EvLock EvHashDatum (EvLock # EvHashDatum # rest)
     \<and> (\<forall>tag. HashDatum L (Data req) p = Inr tag \<longrightarrow>
           (\<exists>rest'. rest = EvGetTag tag # rest')
           \<and> happens_before EvLock (EvGetTag tag) (EvLock # EvHashDatum # rest))
     \<and> ((\<forall>msg. fst (Process L p oc req w) \<noteq> Inl (Crash msg)) \<longrightarrow>
           (\<exists>mid. rest = mid @ [EvUnlock, EvLog] \<and> EvUnlock \<notin> set mid))"
proof -
  obtain rb wb where b: "Process_body L p oc req w = (rb, wb)" by (cases "Process_body L p oc req w")
  from Process_body_events [of L p oc req w] b obtain mid where
    mid: "events wb = events w @ EvLock # EvHashDatum # mid"
    and nl: "list_all (\<lambda>e. \<not> lock_event e) mid"
    and probe: "\<forall>tag. HashDatum L (Data req) p = Inr tag \<longrightarrow> (\<exists>rest'. mid = EvGetTag tag # rest')"
    by auto
  note ns = not_lock_event_set [OF nl]
  show ?thesis
  proof (cases "\<exists>msg. rb = Inl (Crash msg)")
    case True
    then have "Process L p oc req w = (rb, wb)"
      using b by (auto simp: Process_def run_deferred_def)
    with True mid ns probe show ?thesis
      by (intro exI [of _ mid]) (auto simp: happens_before_def)
  next
    case False
    then have "Process L p oc req w = (rb, emit EvLog (emit EvUnlock wb))"
      using b by (auto simp: Process_def run_deferred_def split: sum.splits fault.splits)
    with mid ns probe show ?thesis
      by (intro exI [of _ "mid @ [EvUnlock, EvLog]"]) (auto simp: happens_before_def)
  qed
qed

theorem C8_witness:
  "events (snd (Process demo_lib demo_pipeline (demo_outcomes RunOk) demo_request
                  (demo_world\<lparr>tags := [''h1:false'' \<mapsto> ''treeBytes'']\<rparr>)))
     = [EvLock, EvHashDatum, EvGetTag ''h1:false'', EvUnlock, EvLog]
   \<and> (\<exists>rest. events (snd (Process demo_lib demo_pipeline (demo_outcomes RunOk) demo_request
                  (demo_world\<lparr>tags := [''h1:false'' \<mapsto> ''treeBytes'']\<rparr>)))
               = EvLock # EvHashDatum # rest
        \<and> EvLock \<notin> set rest \<and> (\<exists>mid. rest = mid @ [EvUnlock, EvLog] \<and> EvUnlock \<notin> set mid))"
proof -
  let ?w = "demo_world\<lparr>tags := [''h1:false'' \<mapsto> ''treeBytes'']\<rparr>"
  let ?P = "Process demo_lib demo_pipeline (demo_outcomes RunOk) demo_request ?w"
  have v: "?P = (Inr \<lparr>Tag = ''h1:false''\<rparr>,
                 ?w\<lparr>events := [EvLock, EvHashDatum, EvGetTag ''h1:false'', EvUnlock, EvLog]\<rparr>)"
    by (simp add: demo_unfold)
  then have nc: "\<forall>msg. fst ?P \<noteq> Inl (Crash msg)" by simp
  have e0: "events ?w = []" by (simp add: demo_world_def)
  from C8_lock_held_throughout [of demo_lib demo_pipeline "demo_outcomes RunOk" demo_request ?w] nc e0
  have "\<exists>rest. events (snd ?P) = EvLock # EvHashDatum # rest
        \<and> EvLock \<notin> set rest \<and> (\<exists>mid. rest = mid @ [EvUnlock, EvLog] \<and> EvUnlock \<notin> set mid)"
    by auto
  with v show ?thesis by simp
qed

end
